theory Spec2Isabelle
  imports Complex_Main
begin

section \<open>Data model\<close>

text \<open>
  The approximate scheduling engine of checkmate:
  \<^verbatim>\<open>checkmate/core/solvers/strategy_chen.py\<close> (structural heuristics) and
  \<^verbatim>\<open>checkmate/core/solvers/strategy_approx_lp.py\<close> (rounding of the LP relaxation).

  Vertices are Python ints, numbered in forward topological order. Matrices are numpy
  arrays, modelled as lists of rows. Floating point values (thresholds, fractional
  entries of the relaxed stored matrix) are modelled by the real numbers they denote:
  the code only compares them (\<^verbatim>\<open>>=\<close>, \<^verbatim>\<open><=\<close>), and comparison of doubles is
  comparison of their values. The two places where the code computes with floats,
  \<^verbatim>\<open>int(math.sqrt(len(C)))\<close> and \<^verbatim>\<open>int(0.9 * budget)\<close>, are modelled with their rounding.
\<close>

type_synonym vertex = nat
type_synonym 'a matrix = "'a list list"

text \<open>
  The exceptions that matter to the source: \<^verbatim>\<open>ValueError\<close> is the one caught around
  \<^verbatim>\<open>lpsolver.solve()\<close>; \<^verbatim>\<open>KeyError\<close> is raised by \<^verbatim>\<open>g.cost_ram[v]\<close> for a vertex
  without a cost; \<^verbatim>\<open>OverflowError\<close> is raised by \<^verbatim>\<open>int(0.9 * budget)\<close> for a budget too
  large for a float; \<open>OtherException\<close> stands for any other exception.
\<close>

datatype exn = ValueError | KeyError | OverflowError | OtherException

text \<open>
  \<^verbatim>\<open>DFGraph\<close> is declared outside the files at hand; the record has the attributes that
  the solvers read: \<^verbatim>\<open>g.v\<close>, \<^verbatim>\<open>g.articulation_points\<close>, \<^verbatim>\<open>g.topological_order_fwd\<close> and
  the dictionary \<^verbatim>\<open>g.cost_ram\<close>.
\<close>

record DFGraph =
  v :: "vertex list"
  articulation_points :: "vertex list"
  topological_order_fwd :: "vertex list"
  cost_ram :: "vertex \<rightharpoonup> int"

datatype SolveStrategy =
    APPROX_DET_ROUND_LP_SWEEP
  | APPROX_RANDOMIZED_ROUND
  | CHEN_GREEDY
  | CHEN_GREEDY_NOAP
  | CHEN_SQRTN
  | CHEN_SQRTN_NOAP

datatype ImposedSchedule = FULL_SCHEDULE | COVER_ALL_NODES | COVER_LAST_NODE

text \<open>
  \<^verbatim>\<open>SchedulerAuxData\<close>: the aggregate statistics of a schedule. The solvers read only
  \<^verbatim>\<open>cpu\<close> and \<^verbatim>\<open>activation_ram\<close>.
\<close>

record SchedulerAuxData =
  cpu :: int
  activation_ram :: int

record ILPAuxData =
  U :: "real matrix option"
  Free_E :: "real matrix option"
  ilp_approx :: bool
  ilp_time_limit :: "int option"
  ilp_eps_noise :: real
  ilp_num_constraints :: int
  ilp_num_variables :: int
  approx_deterministic_round_threshold :: "real option"

record 'sched ScheduledResult =
  solve_strategy :: SolveStrategy
  solver_budget :: int
  feasible :: bool
  schedule :: "'sched option"
  schedule_aux_data :: "SchedulerAuxData option"
  solve_time_s :: "real option"
  ilp_aux_data :: "ILPAuxData option"

section \<open>Double-precision arithmetic\<close>

text \<open>
  Both files compute with Python floats (IEEE doubles): \<^verbatim>\<open>int(math.sqrt(len(C)))\<close> in
  \<^verbatim>\<open>strategy_chen.py\<close> and \<^verbatim>\<open>int(0.9 * budget)\<close> in \<^verbatim>\<open>strategy_approx_lp.py\<close>. A
  non-negative double is an integer of at most 53 bits times a power of two, and each
  operation returns the exact result rounded to 53 significant bits, ties to even. On
  integers: \<open>bitlen n\<close> is the number of bits of \<open>n\<close>, and \<open>round53 n\<close> rounds \<open>n\<close> to
  53 significant bits; this is also how Python converts the integer \<open>n\<close> to a float.
\<close>

fun bitlen :: "nat \<Rightarrow> nat" where
  "bitlen n = (if n = 0 then 0 else Suc (bitlen (n div 2)))"

declare bitlen.simps [simp del]

definition round53 :: "nat \<Rightarrow> nat" where
  "round53 n =
     (if n < 2 ^ 53 then n
      else (let s = bitlen n - 53; q = n div 2 ^ s; r = n mod 2 ^ s; h = 2 ^ (s - 1)
            in (if h < r \<or> (r = h \<and> odd q) then q + 1 else q) * 2 ^ s))"

section \<open>Structural heuristics (strategy_chen.py)\<close>

text \<open>
  The collaborators \<^verbatim>\<open>gen_s_matrix_fixed_checkpoints\<close>, \<^verbatim>\<open>solve_r_opt\<close> and
  \<^verbatim>\<open>schedule_from_rs\<close> live outside the files at hand and are parameters of the model, as
  is the elapsed time read from the \<^verbatim>\<open>Timer\<close>.
\<close>

text \<open>
  The loop of \<^verbatim>\<open>solve_chen_greedy\<close> over \<^verbatim>\<open>g.topological_order_fwd\<close>. The state is
  \<open>(temp, x, checkpoints)\<close>.
  \<^verbatim>\<open>
        for v in g.topological_order_fwd:
            temp += g.cost_ram[v]
            if v in C and temp > segment_mem_B:
                x += g.cost_ram[v]
                temp = 0
                checkpoints.add(v)
  \<close>
\<close>

fun chen_greedy_loop ::
  "DFGraph \<Rightarrow> vertex list \<Rightarrow> int \<Rightarrow> vertex list \<Rightarrow> int \<times> int \<times> vertex set
    \<Rightarrow> exn + (int \<times> int \<times> vertex set)" where
  "chen_greedy_loop g C segment_mem_B [] st = Inr st"
| "chen_greedy_loop g C segment_mem_B (u # us) (temp, x, checkpoints) =
     (case cost_ram g u of
        None \<Rightarrow> Inl KeyError
      | Some m \<Rightarrow>
          (let temp' = temp + m in
           if u \<in> set C \<and> temp' > segment_mem_B
           then chen_greedy_loop g C segment_mem_B us (0, x + m, insert u checkpoints)
           else chen_greedy_loop g C segment_mem_B us (temp', x, checkpoints)))"

definition chen_greedy_checkpoints :: "DFGraph \<Rightarrow> int \<Rightarrow> bool \<Rightarrow> exn + vertex set" where
  "chen_greedy_checkpoints g segment_mem_B use_actuation_points =
     (let C = (if use_actuation_points then articulation_points g else v g) in
      case chen_greedy_loop g C segment_mem_B (topological_order_fwd g) (0, 0, {}) of
        Inl e \<Rightarrow> Inl e
      | Inr (temp, x, checkpoints) \<Rightarrow> Inr checkpoints)"

definition solve_chen_greedy ::
  "(DFGraph \<Rightarrow> vertex set \<Rightarrow> int matrix) \<Rightarrow> (DFGraph \<Rightarrow> int matrix \<Rightarrow> int matrix)
    \<Rightarrow> (DFGraph \<Rightarrow> int matrix \<Rightarrow> int matrix \<Rightarrow> 'sched \<times> SchedulerAuxData) \<Rightarrow> real
    \<Rightarrow> DFGraph \<Rightarrow> int \<Rightarrow> bool \<Rightarrow> exn + 'sched ScheduledResult" where
  "solve_chen_greedy gen_s_matrix_fixed_checkpoints solve_r_opt schedule_from_rs elapsed
       g segment_mem_B use_actuation_points =
     (case chen_greedy_checkpoints g segment_mem_B use_actuation_points of
        Inl e \<Rightarrow> Inl e
      | Inr checkpoints \<Rightarrow>
          (let S = gen_s_matrix_fixed_checkpoints g checkpoints;
               R = solve_r_opt g S;
               (sched, aux_data) = schedule_from_rs g R S
           in Inr \<lparr> solve_strategy =
                       (if use_actuation_points then CHEN_GREEDY else CHEN_GREEDY_NOAP),
                     solver_budget = segment_mem_B,
                     feasible = True,
                     schedule = Some sched,
                     schedule_aux_data = Some aux_data,
                     solve_time_s = Some elapsed,
                     ilp_aux_data = None \<rparr>))"

text \<open>
  The integer square root \<open>\<lfloor>sqrt n\<rfloor>\<close>, by downward search (lemma \<open>isqrt_floor\<close> below).
\<close>

fun isqrt_search :: "nat \<Rightarrow> nat \<Rightarrow> nat" where
  "isqrt_search n 0 = 0"
| "isqrt_search n (Suc k) = (if Suc k * Suc k \<le> n then Suc k else isqrt_search n k)"

definition isqrt :: "nat \<Rightarrow> nat" where
  "isqrt n = isqrt_search n n"

text \<open>
  \<^verbatim>\<open>int(math.sqrt(n))\<close> for a length \<open>n\<close>, as Python computes it: \<open>n\<close> is converted to the
  double \<open>x = round53 n\<close>, \<^verbatim>\<open>math.sqrt\<close> returns the square root of \<open>x\<close> rounded to 53
  significant bits, and \<^verbatim>\<open>int\<close> truncates it. With \<open>r = \<lfloor>sqrt x\<rfloor>\<close> of \<open>bitlen r\<close> bits and
  \<open>s = 53 - bitlen r\<close>, the rounded root is \<open>Y / 2^s\<close>, where \<open>Y\<close> is the integer nearest
  to \<open>sqrt x * 2^s = sqrt (x * 4^s)\<close>: with \<open>t = \<lfloor>sqrt (x * 4^s)\<rfloor>\<close> it is \<open>t\<close> if
  \<open>x * 4^s \<le> t^2 + t\<close> (the root is below \<open>t + 1/2\<close>) and \<open>t + 1\<close> otherwise (a square
  root of an integer is never \<open>t + 1/2\<close>). A length is below \<open>2^63\<close>, so the conversion
  does not overflow and \<open>bitlen r \<le> 32\<close>.
\<close>

definition int_math_sqrt :: "nat \<Rightarrow> nat" where
  "int_math_sqrt n =
     (let x = round53 n;
          r = isqrt x;
          s = 53 - bitlen r;
          t = isqrt (x * 4 ^ s);
          Y = (if x * 4 ^ s \<le> t * t + t then t else t + 1)
      in Y div 2 ^ s)"

text \<open>
  The checkpoint list of \<^verbatim>\<open>solve_chen_sqrtn\<close>:
  \<^verbatim>\<open>
        k = int(math.sqrt(len(C)))
        checkpoints = [v for idx, v in enumerate(C) if (idx + 1) % k == 0]
  \<close>
  For an empty \<open>C\<close> the comprehension evaluates no \<^verbatim>\<open>%\<close>; for a non-empty one
  \<open>k \<ge> 1\<close> (lemma \<open>int_math_sqrt_exact\<close> below). So the modulo never divides by zero.
\<close>

definition chen_sqrtn_checkpoints :: "DFGraph \<Rightarrow> bool \<Rightarrow> vertex list" where
  "chen_sqrtn_checkpoints g use_actuation_points =
     (let C = (if use_actuation_points then articulation_points g else v g);
          k = int_math_sqrt (length C)
      in map snd (filter (\<lambda>(idx, u). (idx + 1) mod k = 0) (enumerate 0 C)))"

definition solve_chen_sqrtn ::
  "(DFGraph \<Rightarrow> vertex set \<Rightarrow> int matrix) \<Rightarrow> (DFGraph \<Rightarrow> int matrix \<Rightarrow> int matrix)
    \<Rightarrow> (DFGraph \<Rightarrow> int matrix \<Rightarrow> int matrix \<Rightarrow> 'sched \<times> SchedulerAuxData) \<Rightarrow> real
    \<Rightarrow> DFGraph \<Rightarrow> bool \<Rightarrow> 'sched ScheduledResult" where
  "solve_chen_sqrtn gen_s_matrix_fixed_checkpoints solve_r_opt schedule_from_rs elapsed
       g use_actuation_points =
     (let checkpoints = chen_sqrtn_checkpoints g use_actuation_points;
          S = gen_s_matrix_fixed_checkpoints g (set checkpoints);
          R = solve_r_opt g S;
          (sched, aux_data) = schedule_from_rs g R S
      in \<lparr> solve_strategy = (if use_actuation_points then CHEN_SQRTN else CHEN_SQRTN_NOAP),
           solver_budget = 0,
           feasible = True,
           schedule = Some sched,
           schedule_aux_data = Some aux_data,
           solve_time_s = Some elapsed,
           ilp_aux_data = None \<rparr>)"

section \<open>Rounding of the LP relaxation (strategy_approx_lp.py)\<close>

subsection \<open>The relaxation solver\<close>

text \<open>
  The keyword arguments \<^verbatim>\<open>seed_s\<close>, \<^verbatim>\<open>approx\<close>, \<^verbatim>\<open>time_limit\<close>, \<^verbatim>\<open>write_log_file\<close>,
  \<^verbatim>\<open>print_to_console\<close>, \<^verbatim>\<open>write_model_file\<close>, \<^verbatim>\<open>eps_noise\<close> and \<^verbatim>\<open>solver_cores\<close>, which
  every rounding entry point takes and hands on unchanged.
\<close>

record lp_options =
  seed_s :: "real matrix option"
  approx :: bool
  time_limit :: "int option"
  write_log_file :: "string option"
  print_to_console :: bool
  write_model_file :: "string option"
  eps_noise :: real
  solver_cores :: "nat option"

datatype gurobi_time_limit = TimeInf | TimeSeconds int

record gurobi_params =
  LogToConsole :: int
  LogFile :: string
  Threads :: "nat option"
  TimeLimit :: gurobi_time_limit
  OptimalityTol :: real
  IntFeasTol :: real
  Presolve :: int
  StartNodeLimit :: int

definition param_dict :: "lp_options \<Rightarrow> gurobi_params" where
  "param_dict opts =
     \<lparr> LogToConsole = (if print_to_console opts then 1 else 0),
       LogFile = (case write_log_file opts of Some f \<Rightarrow> f | None \<Rightarrow> []),
       Threads = solver_cores opts,
       TimeLimit = (case time_limit opts of None \<Rightarrow> TimeInf | Some t \<Rightarrow> TimeSeconds t),
       OptimalityTol = (if approx opts then 1 / 100 else 1 / 10000),
       IntFeasTol = (if approx opts then 1 / 1000 else 1 / 100000),
       Presolve = 2,
       StartNodeLimit = 10000000 \<rparr>"

text \<open>The arguments of the constructor call \<^verbatim>\<open>ILPSolver(g, int(0.9 * budget), ...)\<close>.\<close>

record ILPSolver_args =
  arg_g :: DFGraph
  arg_budget :: int
  arg_gurobi_params :: gurobi_params
  arg_seed_s :: "real matrix option"
  arg_integral :: bool
  arg_solve_r :: bool
  arg_eps_noise :: real
  arg_imposed_schedule :: "ImposedSchedule option"
  arg_write_model_file :: "string option"

text \<open>
  \<^verbatim>\<open>int(0.9 * budget)\<close>, as Python computes it in IEEE double arithmetic:
  \<^item> \<^verbatim>\<open>budget\<close> is converted to the nearest double, that is, its magnitude is rounded
    to 53 significant bits, ties to even; Python raises \<^verbatim>\<open>OverflowError\<close> when the rounded
    magnitude reaches \<open>2^1024\<close>;
  \<^item> the literal \<^verbatim>\<open>0.9\<close> is the double \<open>8106479329266893 / 2^53\<close>;
  \<^item> the product of the two doubles is their exact product rounded to 53 significant
    bits, ties to even (with a factor below 1 it does not overflow, and for a budget other
    than 0 it is at least 0.9, so it does not underflow);
  \<^item> \<^verbatim>\<open>int\<close> truncates the product towards zero.
  With the magnitudes scaled by \<open>2^53\<close> all of this is integer arithmetic.
\<close>

definition float_overflows :: "int \<Rightarrow> bool" where
  "float_overflows budget = (2 ^ 1024 \<le> round53 (nat \<bar>budget\<bar>))"

text \<open>The value of \<^verbatim>\<open>int(0.9 * budget)\<close> where it does not raise.\<close>

definition reduced_budget :: "int \<Rightarrow> int" where
  "reduced_budget budget =
     sgn budget * int (round53 (round53 (nat \<bar>budget\<bar>) * 8106479329266893) div 2 ^ 53)"

text \<open>
  The arguments of the constructor call of both entry points, where \<^verbatim>\<open>int(0.9 * budget)\<close>
  does not raise. The sweep passes \<^verbatim>\<open>imposed_schedule\<close>, the randomized rounding does not
  (\<open>None\<close>: the solver's own default).
\<close>

definition lp_relaxation_args ::
  "DFGraph \<Rightarrow> int \<Rightarrow> lp_options \<Rightarrow> ImposedSchedule option \<Rightarrow> ILPSolver_args" where
  "lp_relaxation_args g budget opts imposed =
     \<lparr> arg_g = g,
       arg_budget = reduced_budget budget,
       arg_gurobi_params = param_dict opts,
       arg_seed_s = seed_s opts,
       arg_integral = False,
       arg_solve_r = False,
       arg_eps_noise = eps_noise opts,
       arg_imposed_schedule = imposed,
       arg_write_model_file = write_model_file opts \<rparr>"

text \<open>
  What the entry points observe of the solver object after \<^verbatim>\<open>build_model()\<close>: the outcome of
  \<^verbatim>\<open>solve()\<close> (the tuple \<^verbatim>\<open>r, s, u, free_e\<close>, or the exception raised), \<^verbatim>\<open>solve_time\<close>,
  \<^verbatim>\<open>m.numConstrs\<close> and \<^verbatim>\<open>m.numVars\<close>. The solver itself is a parameter
  \<open>ILPSolver :: ILPSolver_args \<Rightarrow> lpsolver\<close>.
\<close>

record lp_solution =
  sol_r :: "real matrix option"
  sol_s :: "real matrix"
  sol_u :: "real matrix"
  sol_free_e :: "real matrix"

record lpsolver =
  solve :: "exn + lp_solution"
  solve_time :: "real option"
  numConstrs :: int
  numVars :: int

text \<open>
  \<^verbatim>\<open>
    try:
        r, s, u, free_e = lpsolver.solve()
        lp_feasible = True
    except ValueError as e:
        logging.exception(e)
        r, s, u, free_e = (None, None, None, None)
        lp_feasible = False
  \<close>
  \<open>Inr None\<close> is \<open>lp_feasible = False\<close>; an exception other than \<^verbatim>\<open>ValueError\<close> is not
  caught and leaves the entry point.
\<close>

definition try_solve :: "lpsolver \<Rightarrow> exn + lp_solution option" where
  "try_solve lp =
     (case solve lp of
        Inr sol \<Rightarrow> Inr (Some sol)
      | Inl ValueError \<Rightarrow> Inr None
      | Inl e \<Rightarrow> Inl e)"

definition make_ilp_aux_data ::
  "lpsolver \<Rightarrow> lp_solution option \<Rightarrow> lp_options \<Rightarrow> real option \<Rightarrow> ILPAuxData" where
  "make_ilp_aux_data lp sol opts min_threshold =
     \<lparr> U = map_option sol_u sol,
       Free_E = map_option sol_free_e sol,
       ilp_approx = approx opts,
       ilp_time_limit = time_limit opts,
       ilp_eps_noise = eps_noise opts,
       ilp_num_constraints = numConstrs lp,
       ilp_num_variables = numVars lp,
       approx_deterministic_round_threshold = min_threshold \<rparr>"

subsection \<open>Deterministic threshold sweep\<close>

text \<open>\<^verbatim>\<open>(s >= threshold).astype(np.int)\<close>\<close>

definition ge_threshold :: "real matrix \<Rightarrow> real \<Rightarrow> int matrix" where
  "ge_threshold s threshold = map (map (\<lambda>x. if x \<ge> threshold then 1 else 0)) s"

text \<open>
  The loop over the thresholds; the state is \<open>(schedule, aux_data, min_threshold)\<close>.
  A primed name stands for the source's name with a trailing underscore.
  \<^verbatim>\<open>
        for threshold in thresholds:
            s_ = (s >= threshold).astype(np.int)
            r_ = solve_r_opt(g, s_)
            schedule_, aux_data_ = schedule_from_rs(g, r_, s_)
            if (allow_return_infeasible_schedule and aux_data is None) or (
                aux_data_.activation_ram <= budget and (aux_data is None or aux_data_.cpu <= aux_data.cpu)
            ):
                aux_data = aux_data_
                schedule = schedule_
                min_threshold = threshold
  \<close>
\<close>

type_synonym 'sched sweep_state = "'sched option \<times> SchedulerAuxData option \<times> real option"

fun sweep_rounding ::
  "(DFGraph \<Rightarrow> int matrix \<Rightarrow> int matrix)
    \<Rightarrow> (DFGraph \<Rightarrow> int matrix \<Rightarrow> int matrix \<Rightarrow> 'sched \<times> SchedulerAuxData)
    \<Rightarrow> DFGraph \<Rightarrow> int \<Rightarrow> bool \<Rightarrow> real matrix \<Rightarrow> real list
    \<Rightarrow> 'sched sweep_state \<Rightarrow> 'sched sweep_state" where
  "sweep_rounding solve_r_opt schedule_from_rs g budget allow s [] st = st"
| "sweep_rounding solve_r_opt schedule_from_rs g budget allow s (threshold # thresholds)
       (sched, aux_data, min_threshold) =
     (let s' = ge_threshold s threshold;
          r' = solve_r_opt g s';
          (schedule', aux_data') = schedule_from_rs g r' s'
      in if (allow \<and> aux_data = None) \<or>
            (activation_ram aux_data' \<le> budget \<and>
             (case aux_data of None \<Rightarrow> True | Some a \<Rightarrow> cpu aux_data' \<le> cpu a))
         then sweep_rounding solve_r_opt schedule_from_rs g budget allow s thresholds
                (Some schedule', Some aux_data', Some threshold)
         else sweep_rounding solve_r_opt schedule_from_rs g budget allow s thresholds
                (sched, aux_data, min_threshold))"

definition solve_approx_lp_deterministic_sweep ::
  "(ILPSolver_args \<Rightarrow> lpsolver)
    \<Rightarrow> (DFGraph \<Rightarrow> int matrix \<Rightarrow> int matrix)
    \<Rightarrow> (DFGraph \<Rightarrow> int matrix \<Rightarrow> int matrix \<Rightarrow> 'sched \<times> SchedulerAuxData)
    \<Rightarrow> DFGraph \<Rightarrow> int \<Rightarrow> lp_options \<Rightarrow> real list \<Rightarrow> ImposedSchedule \<Rightarrow> bool
    \<Rightarrow> exn + 'sched ScheduledResult" where
  "solve_approx_lp_deterministic_sweep ILPSolver solve_r_opt schedule_from_rs
       g budget opts thresholds imposed_schedule allow_return_infeasible_schedule =
     (if float_overflows budget then Inl OverflowError
      else
      let lp = ILPSolver (lp_relaxation_args g budget opts (Some imposed_schedule)) in
      case try_solve lp of
        Inl e \<Rightarrow> Inl e
      | Inr sol \<Rightarrow>
          (let lp_feasible = (sol \<noteq> None);
               (sched, aux_data, min_threshold) =
                 (case sol of
                    None \<Rightarrow> (None, None, None)
                  | Some x \<Rightarrow>
                      sweep_rounding solve_r_opt schedule_from_rs g budget
                        allow_return_infeasible_schedule (sol_s x) thresholds (None, None, None))
           in Inr \<lparr> solve_strategy = APPROX_DET_ROUND_LP_SWEEP,
                     solver_budget = budget,
                     feasible = (lp_feasible \<and> aux_data \<noteq> None),
                     schedule = sched,
                     schedule_aux_data = aux_data,
                     solve_time_s = solve_time lp,
                     ilp_aux_data = Some (make_ilp_aux_data lp sol opts min_threshold) \<rparr>))"

text \<open>The default \<^verbatim>\<open>thresholds=(0.1, 0.2, ..., 0.9)\<close>.\<close>

definition default_thresholds :: "real list" where
  "default_thresholds = [1/10, 2/10, 3/10, 4/10, 5/10, 6/10, 7/10, 8/10, 9/10]"

subsection \<open>Single threshold 0.5\<close>

text \<open>
  \<^verbatim>\<open>solve_approx_lp_deterministic_05_threshold\<close> takes the shared options, \<^verbatim>\<open>n_samples\<close>
  (which it never reads) and \<^verbatim>\<open>allow_return_infeasible_schedule\<close>; it has no
  \<^verbatim>\<open>imposed_schedule\<close> parameter, so the sweep runs with its default.
\<close>

definition solve_approx_lp_deterministic_05_threshold ::
  "(ILPSolver_args \<Rightarrow> lpsolver)
    \<Rightarrow> (DFGraph \<Rightarrow> int matrix \<Rightarrow> int matrix)
    \<Rightarrow> (DFGraph \<Rightarrow> int matrix \<Rightarrow> int matrix \<Rightarrow> 'sched \<times> SchedulerAuxData)
    \<Rightarrow> DFGraph \<Rightarrow> int \<Rightarrow> lp_options \<Rightarrow> int \<Rightarrow> bool
    \<Rightarrow> exn + 'sched ScheduledResult" where
  "solve_approx_lp_deterministic_05_threshold ILPSolver solve_r_opt schedule_from_rs
       g budget opts n_samples allow_return_infeasible_schedule =
     solve_approx_lp_deterministic_sweep ILPSolver solve_r_opt schedule_from_rs
       g budget opts [1 / 2] FULL_SCHEDULE allow_return_infeasible_schedule"

subsection \<open>Random thresholds\<close>

text \<open>
  The module-level generator \<^verbatim>\<open>np.random\<close> is ambient state in the source. The model
  threads its state \<open>'rng\<close> through: \<open>np_random_normal rng loc scale\<close> and
  \<open>np_random_rand rng shape\<close> return the draw and the next state.
  \<^verbatim>\<open>
    thresholds = [min(1.0, max(0.0, np.random.normal(0.5, 0.5))) for i in range(n_samples)]
  \<close>
\<close>

fun draw_thresholds ::
  "('rng \<Rightarrow> real \<Rightarrow> real \<Rightarrow> real \<times> 'rng) \<Rightarrow> 'rng \<Rightarrow> nat \<Rightarrow> real list \<times> 'rng" where
  "draw_thresholds np_random_normal rng 0 = ([], rng)"
| "draw_thresholds np_random_normal rng (Suc n) =
     (let (x, rng') = np_random_normal rng (1 / 2) (1 / 2);
          (xs, rng'') = draw_thresholds np_random_normal rng' n
      in (min 1 (max 0 x) # xs, rng''))"

definition solve_approx_lp_deterministic_rand_threshold ::
  "('rng \<Rightarrow> real \<Rightarrow> real \<Rightarrow> real \<times> 'rng)
    \<Rightarrow> (ILPSolver_args \<Rightarrow> lpsolver)
    \<Rightarrow> (DFGraph \<Rightarrow> int matrix \<Rightarrow> int matrix)
    \<Rightarrow> (DFGraph \<Rightarrow> int matrix \<Rightarrow> int matrix \<Rightarrow> 'sched \<times> SchedulerAuxData)
    \<Rightarrow> 'rng \<Rightarrow> DFGraph \<Rightarrow> int \<Rightarrow> lp_options \<Rightarrow> int
    \<Rightarrow> (exn + 'sched ScheduledResult) \<times> 'rng" where
  "solve_approx_lp_deterministic_rand_threshold np_random_normal ILPSolver solve_r_opt
       schedule_from_rs rng g budget opts n_samples =
     (let (thresholds, rng') = draw_thresholds np_random_normal rng (nat n_samples)
      in (solve_approx_lp_deterministic_sweep ILPSolver solve_r_opt schedule_from_rs
            g budget opts thresholds FULL_SCHEDULE False, rng'))"

subsection \<open>Randomized (Bernoulli) rounding\<close>

text \<open>\<^verbatim>\<open>s.shape\<close> and \<^verbatim>\<open>(np.random.rand(*s.shape) <= s).astype(np.int32)\<close>\<close>

definition shape :: "'a matrix \<Rightarrow> nat \<times> nat" where
  "shape s = (length s, (case s of [] \<Rightarrow> 0 | row # _ \<Rightarrow> length row))"

definition le_matrix :: "real matrix \<Rightarrow> real matrix \<Rightarrow> int matrix" where
  "le_matrix a s = map2 (map2 (\<lambda>x y. if x \<le> y then 1 else 0)) a s"

text \<open>\<^verbatim>\<open>best_solution[0]\<close> is \<^verbatim>\<open>float("inf")\<close> or the \<^verbatim>\<open>cpu\<close> of the best candidate.\<close>

datatype best_cost = PyInf | Cost int

fun cost_le :: "int \<Rightarrow> best_cost \<Rightarrow> bool" where
  "cost_le c PyInf = True"
| "cost_le c (Cost d) = (c \<le> d)"

record rounding_statistics =
  stat_cpu :: "int list"
  stat_activation_ram :: "int list"
  stat_in_budget :: "bool list"

text \<open>
  The loop \<^verbatim>\<open>for i in range(num_rounds)\<close>; the state is \<open>best_solution\<close>, the three
  statistics lists and the generator. The progress line printed each round is not
  modelled.
  \<^verbatim>\<open>
            s_ = (np.random.rand(*s.shape) <= s).astype(np.int32)
            r_ = solve_r_opt(g, s_)
            schedule, aux_data = schedule_from_rs(g, r_, s_)

            rounding_cpus.append(aux_data.cpu)
            rounding_activation_rams.append(aux_data.activation_ram)
            rounding_in_budgets.append(aux_data.activation_ram <= budget)

            if aux_data.activation_ram <= budget and (best_solution[2] is None or aux_data.cpu <= best_solution[0]):
                best_solution = (aux_data.cpu, schedule, aux_data)
  \<close>
\<close>

type_synonym 'sched best_solution = "best_cost \<times> 'sched option \<times> SchedulerAuxData option"

fun randomized_rounding ::
  "('rng \<Rightarrow> nat \<times> nat \<Rightarrow> real matrix \<times> 'rng)
    \<Rightarrow> (DFGraph \<Rightarrow> int matrix \<Rightarrow> int matrix)
    \<Rightarrow> (DFGraph \<Rightarrow> int matrix \<Rightarrow> int matrix \<Rightarrow> 'sched \<times> SchedulerAuxData)
    \<Rightarrow> DFGraph \<Rightarrow> int \<Rightarrow> real matrix \<Rightarrow> nat
    \<Rightarrow> 'sched best_solution \<times> rounding_statistics \<times> 'rng
    \<Rightarrow> 'sched best_solution \<times> rounding_statistics \<times> 'rng" where
  "randomized_rounding np_random_rand solve_r_opt schedule_from_rs g budget s 0 st = st"
| "randomized_rounding np_random_rand solve_r_opt schedule_from_rs g budget s (Suc n)
       (best_solution, stats, rng) =
     (let (a, rng') = np_random_rand rng (shape s);
          s' = le_matrix a s;
          r' = solve_r_opt g s';
          (sched, aux_data) = schedule_from_rs g r' s';
          stats' = \<lparr> stat_cpu = stat_cpu stats @ [cpu aux_data],
                     stat_activation_ram = stat_activation_ram stats @ [activation_ram aux_data],
                     stat_in_budget =
                       stat_in_budget stats @ [activation_ram aux_data \<le> budget] \<rparr>
      in if activation_ram aux_data \<le> budget \<and>
            (snd (snd best_solution) = None \<or> cost_le (cpu aux_data) (fst best_solution))
         then randomized_rounding np_random_rand solve_r_opt schedule_from_rs g budget s n
                ((Cost (cpu aux_data), Some sched, Some aux_data), stats', rng')
         else randomized_rounding np_random_rand solve_r_opt schedule_from_rs g budget s n
                (best_solution, stats', rng'))"

definition solve_approx_lp_randomized ::
  "('rng \<Rightarrow> nat \<times> nat \<Rightarrow> real matrix \<times> 'rng)
    \<Rightarrow> (ILPSolver_args \<Rightarrow> lpsolver)
    \<Rightarrow> (DFGraph \<Rightarrow> int matrix \<Rightarrow> int matrix)
    \<Rightarrow> (DFGraph \<Rightarrow> int matrix \<Rightarrow> int matrix \<Rightarrow> 'sched \<times> SchedulerAuxData)
    \<Rightarrow> 'rng \<Rightarrow> DFGraph \<Rightarrow> int \<Rightarrow> lp_options \<Rightarrow> int \<Rightarrow> bool
    \<Rightarrow> (exn + 'sched ScheduledResult \<times> rounding_statistics option) \<times> 'rng" where
  "solve_approx_lp_randomized np_random_rand ILPSolver solve_r_opt schedule_from_rs
       rng g budget opts num_rounds return_rounds =
     (if float_overflows budget then (Inl OverflowError, rng)
      else
      let lp = ILPSolver (lp_relaxation_args g budget opts None) in
      case try_solve lp of
        Inl e \<Rightarrow> (Inl e, rng)
      | Inr sol \<Rightarrow>
          (let lp_feasible = (sol \<noteq> None);
               init = ((PyInf, None, None),
                       \<lparr> stat_cpu = [], stat_activation_ram = [], stat_in_budget = [] \<rparr>,
                       rng);
               (best_solution, stats, rng') =
                 (case sol of
                    None \<Rightarrow> init
                  | Some x \<Rightarrow>
                      randomized_rounding np_random_rand solve_r_opt schedule_from_rs g budget
                        (sol_s x) (nat num_rounds) init);
               scheduled_result =
                 \<lparr> solve_strategy = APPROX_RANDOMIZED_ROUND,
                   solver_budget = budget,
                   feasible = lp_feasible,
                   schedule = fst (snd best_solution),
                   schedule_aux_data = snd (snd best_solution),
                   solve_time_s = solve_time lp,
                   ilp_aux_data = Some (make_ilp_aux_data lp sol opts None) \<rparr>
           in (Inr (scheduled_result, if return_rounds then Some stats else None), rng')))"

section \<open>The selection rule and the candidates, for stating the properties\<close>

text \<open>The candidate that one iteration of the sweep evaluates for a threshold.\<close>

definition threshold_candidate ::
  "(DFGraph \<Rightarrow> int matrix \<Rightarrow> int matrix)
    \<Rightarrow> (DFGraph \<Rightarrow> int matrix \<Rightarrow> int matrix \<Rightarrow> 'sched \<times> SchedulerAuxData)
    \<Rightarrow> DFGraph \<Rightarrow> real matrix \<Rightarrow> real \<Rightarrow> 'sched \<times> SchedulerAuxData" where
  "threshold_candidate solve_r_opt schedule_from_rs g s threshold =
     schedule_from_rs g (solve_r_opt g (ge_threshold s threshold)) (ge_threshold s threshold)"

text \<open>The candidate that one round of the randomized rounding evaluates for a draw.\<close>

definition draw_candidate ::
  "(DFGraph \<Rightarrow> int matrix \<Rightarrow> int matrix)
    \<Rightarrow> (DFGraph \<Rightarrow> int matrix \<Rightarrow> int matrix \<Rightarrow> 'sched \<times> SchedulerAuxData)
    \<Rightarrow> DFGraph \<Rightarrow> real matrix \<Rightarrow> real matrix \<Rightarrow> 'sched \<times> SchedulerAuxData" where
  "draw_candidate solve_r_opt schedule_from_rs g s a =
     schedule_from_rs g (solve_r_opt g (le_matrix a s)) (le_matrix a s)"

text \<open>The successive draws \<^verbatim>\<open>np.random.rand(*shape)\<close> of \<open>n\<close> rounds.\<close>

fun round_draws ::
  "('rng \<Rightarrow> nat \<times> nat \<Rightarrow> real matrix \<times> 'rng) \<Rightarrow> 'rng \<Rightarrow> nat \<times> nat \<Rightarrow> nat
    \<Rightarrow> real matrix list" where
  "round_draws np_random_rand rng sh 0 = []"
| "round_draws np_random_rand rng sh (Suc n) =
     fst (np_random_rand rng sh) # round_draws np_random_rand (snd (np_random_rand rng sh)) sh n"

text \<open>
  The selection rule as the specification words it: a candidate supersedes the current
  best iff it is within budget and there is no current best or its \<open>cpu\<close> is at most
  the best's. \<open>keep_best\<close> runs the rule over a list of candidates, each with a tag
  (the threshold, or nothing).
\<close>

definition supersedes :: "int \<Rightarrow> SchedulerAuxData \<Rightarrow> ('c \<times> SchedulerAuxData) option \<Rightarrow> bool" where
  "supersedes budget aux best =
     (activation_ram aux \<le> budget \<and> (case best of None \<Rightarrow> True | Some (c, a) \<Rightarrow> cpu aux \<le> cpu a))"

fun keep_best ::
  "int \<Rightarrow> ('c \<times> SchedulerAuxData) list \<Rightarrow> ('c \<times> SchedulerAuxData) option
    \<Rightarrow> ('c \<times> SchedulerAuxData) option" where
  "keep_best budget [] best = best"
| "keep_best budget ((c, aux) # cs) best =
     keep_best budget cs (if supersedes budget aux best then Some (c, aux) else best)"

text \<open>
  The state of the sweep's loop and of the randomized loop, read as the current best of
  the selection rule, and the candidates of each loop in the order they are evaluated.
\<close>

definition sweep_state_of ::
  "(('sched \<times> real) \<times> SchedulerAuxData) option \<Rightarrow> 'sched sweep_state" where
  "sweep_state_of best =
     (case best of
        None \<Rightarrow> (None, None, None)
      | Some ((sc, th), a) \<Rightarrow> (Some sc, Some a, Some th))"

definition sweep_candidates ::
  "(DFGraph \<Rightarrow> int matrix \<Rightarrow> int matrix)
    \<Rightarrow> (DFGraph \<Rightarrow> int matrix \<Rightarrow> int matrix \<Rightarrow> 'sched \<times> SchedulerAuxData)
    \<Rightarrow> DFGraph \<Rightarrow> real matrix \<Rightarrow> real list \<Rightarrow> (('sched \<times> real) \<times> SchedulerAuxData) list" where
  "sweep_candidates solve_r_opt schedule_from_rs g s thresholds =
     map (\<lambda>th. ((fst (threshold_candidate solve_r_opt schedule_from_rs g s th), th),
                snd (threshold_candidate solve_r_opt schedule_from_rs g s th))) thresholds"

definition best_solution_of :: "('sched \<times> SchedulerAuxData) option \<Rightarrow> 'sched best_solution" where
  "best_solution_of best =
     (case best of
        None \<Rightarrow> (PyInf, None, None)
      | Some (sc, a) \<Rightarrow> (Cost (cpu a), Some sc, Some a))"

definition round_candidates ::
  "(DFGraph \<Rightarrow> int matrix \<Rightarrow> int matrix)
    \<Rightarrow> (DFGraph \<Rightarrow> int matrix \<Rightarrow> int matrix \<Rightarrow> 'sched \<times> SchedulerAuxData)
    \<Rightarrow> DFGraph \<Rightarrow> real matrix \<Rightarrow> real matrix list \<Rightarrow> ('sched \<times> SchedulerAuxData) list" where
  "round_candidates solve_r_opt schedule_from_rs g s draws =
     map (draw_candidate solve_r_opt schedule_from_rs g s) draws"

definition append_stats ::
  "int \<Rightarrow> rounding_statistics \<Rightarrow> ('sched \<times> SchedulerAuxData) list \<Rightarrow> rounding_statistics" where
  "append_stats budget stats cands =
     \<lparr> stat_cpu = stat_cpu stats @ map (\<lambda>c. cpu (snd c)) cands,
       stat_activation_ram = stat_activation_ram stats @ map (\<lambda>c. activation_ram (snd c)) cands,
       stat_in_budget = stat_in_budget stats @ map (\<lambda>c. activation_ram (snd c) \<le> budget) cands \<rparr>"

fun rng_after ::
  "('rng \<Rightarrow> nat \<times> nat \<Rightarrow> real matrix \<times> 'rng) \<Rightarrow> 'rng \<Rightarrow> nat \<times> nat \<Rightarrow> nat \<Rightarrow> 'rng" where
  "rng_after np_random_rand rng sh 0 = rng"
| "rng_after np_random_rand rng sh (Suc n) =
     rng_after np_random_rand (snd (np_random_rand rng sh)) sh n"

text \<open>A result that carries aggregate statistics within the budget.\<close>

definition within_budget :: "int \<Rightarrow> 'sched ScheduledResult \<Rightarrow> bool" where
  "within_budget budget res =
     (case schedule_aux_data res of None \<Rightarrow> False | Some a \<Rightarrow> activation_ram a \<le> budget)"

text \<open>The threshold that a result of the sweep reports.\<close>

definition chosen_threshold :: "exn + 'sched ScheduledResult \<Rightarrow> real option" where
  "chosen_threshold r =
     (case r of
        Inl e \<Rightarrow> None
      | Inr res \<Rightarrow>
          (case ilp_aux_data res of
             None \<Rightarrow> None
           | Some d \<Rightarrow> approx_deterministic_round_threshold d))"

section \<open>Concrete inputs\<close>

text \<open>The synthetic chain of 10 vertices, each with memory cost 1.\<close>

definition chain10 :: DFGraph where
  "chain10 = \<lparr> v = [0, 1, 2, 3, 4, 5, 6, 7, 8, 9],
               articulation_points = [1, 2, 3, 4, 5, 6, 7, 8],
               topological_order_fwd = [0, 1, 2, 3, 4, 5, 6, 7, 8, 9],
               cost_ram = (\<lambda>u. if u < 10 then Some 1 else None) \<rparr>"

text \<open>The chain of \<open>n\<close> vertices with unit memory costs.\<close>

definition unit_chain :: "nat \<Rightarrow> DFGraph" where
  "unit_chain n = \<lparr> v = [0..<n],
                    articulation_points = [1..<n - 1],
                    topological_order_fwd = [0..<n],
                    cost_ram = (\<lambda>u. if u < n then Some 1 else None) \<rparr>"

text \<open>
  A three-vertex chain with unit memory costs, the default options, and stand-ins for the
  collaborators: a relaxation solver that returns the one-row fractional matrix
  \<open>[[0.25, 0.45, 0.75]]\<close> (or raises), a recompute solver that returns the stored matrix,
  and a scheduler for which a stored entry costs one unit of memory in its row and saves
  one unit of compute. The schedule is represented by its stored matrix.
\<close>

definition chain3 :: DFGraph where
  "chain3 = \<lparr> v = [0, 1, 2],
              articulation_points = [1],
              topological_order_fwd = [0, 1, 2],
              cost_ram = (\<lambda>u. if u < 3 then Some 1 else None) \<rparr>"

definition default_opts :: lp_options where
  "default_opts = \<lparr> seed_s = None, approx = True, time_limit = None, write_log_file = None,
                    print_to_console = True, write_model_file = None, eps_noise = 1 / 100,
                    solver_cores = Some 4 \<rparr>"

definition relaxed_solution :: lp_solution where
  "relaxed_solution = \<lparr> sol_r = None, sol_s = [[1/4, 9/20, 3/4]], sol_u = [], sol_free_e = [] \<rparr>"

definition ILPSolver_ok :: "ILPSolver_args \<Rightarrow> lpsolver" where
  "ILPSolver_ok args =
     \<lparr> solve = Inr relaxed_solution, solve_time = Some 1, numConstrs = 12, numVars = 6 \<rparr>"

definition ILPSolver_infeasible :: "ILPSolver_args \<Rightarrow> lpsolver" where
  "ILPSolver_infeasible args =
     \<lparr> solve = Inl ValueError, solve_time = Some 1, numConstrs = 12, numVars = 6 \<rparr>"

definition ILPSolver_crash :: "ILPSolver_args \<Rightarrow> lpsolver" where
  "ILPSolver_crash args =
     \<lparr> solve = Inl OtherException, solve_time = None, numConstrs = 12, numVars = 6 \<rparr>"

text \<open>A solver that succeeds for the budget 1 only.\<close>

definition ILPSolver_budget_1 :: "ILPSolver_args \<Rightarrow> lpsolver" where
  "ILPSolver_budget_1 args =
     (if arg_budget args = 1 then ILPSolver_ok args else ILPSolver_crash args)"

definition solve_r_opt_id :: "DFGraph \<Rightarrow> int matrix \<Rightarrow> int matrix" where
  "solve_r_opt_id g S = S"

definition schedule_count ::
  "DFGraph \<Rightarrow> int matrix \<Rightarrow> int matrix \<Rightarrow> int matrix \<times> SchedulerAuxData" where
  "schedule_count g R S =
     (S, \<lparr> cpu = 10 - sum_list (map sum_list S),
           activation_ram = fold max (map sum_list S) 0 \<rparr>)"

text \<open>
  Generators whose state is a counter: the \<open>n\<close>-th uniform draw is the constant matrix
  of \<open>(n mod 10) / 10\<close>, the \<open>n\<close>-th normal draw is \<open>loc + scale * (n - 1)\<close>.
\<close>

definition rand_counter :: "nat \<Rightarrow> nat \<times> nat \<Rightarrow> real matrix \<times> nat" where
  "rand_counter rng sh =
     (replicate (fst sh) (replicate (snd sh) (real (rng mod 10) / 10)), Suc rng)"

definition normal_counter :: "nat \<Rightarrow> real \<Rightarrow> real \<Rightarrow> real \<times> nat" where
  "normal_counter rng loc scale = (loc + scale * (real rng - 1), Suc rng)"

text \<open>Results that the concrete runs below return.\<close>

definition ilp_aux_of :: "real option \<Rightarrow> ILPAuxData" where
  "ilp_aux_of th =
     \<lparr> U = Some [], Free_E = Some [], ilp_approx = True, ilp_time_limit = None,
       ilp_eps_noise = 1 / 100, ilp_num_constraints = 12, ilp_num_variables = 6,
       approx_deterministic_round_threshold = th \<rparr>"

definition over_budget_result :: "int matrix ScheduledResult" where
  "over_budget_result =
     \<lparr> solve_strategy = APPROX_DET_ROUND_LP_SWEEP, solver_budget = 2, feasible = True,
       schedule = Some [[1, 1, 1]],
       schedule_aux_data = Some \<lparr> cpu = 7, activation_ram = 3 \<rparr>,
       solve_time_s = Some 1, ilp_aux_data = Some (ilp_aux_of (Some (1 / 10))) \<rparr>"

definition no_candidate_result :: "int matrix ScheduledResult" where
  "no_candidate_result =
     \<lparr> solve_strategy = APPROX_RANDOMIZED_ROUND, solver_budget = 2, feasible = True,
       schedule = None, schedule_aux_data = None,
       solve_time_s = Some 1, ilp_aux_data = Some (ilp_aux_of None) \<rparr>"

definition within_budget_result :: "int matrix ScheduledResult" where
  "within_budget_result =
     \<lparr> solve_strategy = APPROX_DET_ROUND_LP_SWEEP, solver_budget = 2, feasible = True,
       schedule = Some [[0, 1, 1]],
       schedule_aux_data = Some \<lparr> cpu = 8, activation_ram = 2 \<rparr>,
       solve_time_s = Some 1, ilp_aux_data = Some (ilp_aux_of (Some (4 / 10))) \<rparr>"

definition single_threshold_result :: "int matrix ScheduledResult" where
  "single_threshold_result =
     \<lparr> solve_strategy = APPROX_DET_ROUND_LP_SWEEP, solver_budget = 2, feasible = True,
       schedule = Some [[0, 0, 1]],
       schedule_aux_data = Some \<lparr> cpu = 9, activation_ram = 1 \<rparr>,
       solve_time_s = Some 1, ilp_aux_data = Some (ilp_aux_of (Some (1 / 2))) \<rparr>"

definition rounded_result :: "int matrix ScheduledResult" where
  "rounded_result =
     \<lparr> solve_strategy = APPROX_RANDOMIZED_ROUND, solver_budget = 2, feasible = True,
       schedule = Some [[0, 1, 1]],
       schedule_aux_data = Some \<lparr> cpu = 8, activation_ram = 2 \<rparr>,
       solve_time_s = Some 1, ilp_aux_data = Some (ilp_aux_of None) \<rparr>"

definition zero_budget_result :: "int matrix ScheduledResult" where
  "zero_budget_result =
     \<lparr> solve_strategy = APPROX_DET_ROUND_LP_SWEEP, solver_budget = 0, feasible = True,
       schedule = Some [[0, 0, 1]],
       schedule_aux_data = Some \<lparr> cpu = 9, activation_ram = 1 \<rparr>,
       solve_time_s = Some 1, ilp_aux_data = Some (ilp_aux_of (Some (1 / 2))) \<rparr>"

definition no_stats :: rounding_statistics where
  "no_stats = \<lparr> stat_cpu = [], stat_activation_ram = [], stat_in_budget = [] \<rparr>"

text \<open>
  A stand-in for \<^verbatim>\<open>gen_s_matrix_fixed_checkpoints\<close> that shows the checkpoint set it was
  given (one row that marks the checkpoints among the vertices), and the result of
  \<^verbatim>\<open>solve_chen_sqrtn\<close> with it on the chain of 9 vertices.
\<close>

definition gen_s_checkpoints :: "DFGraph \<Rightarrow> vertex set \<Rightarrow> int matrix" where
  "gen_s_checkpoints g checkpoints = [map (\<lambda>u. if u \<in> checkpoints then 1 else 0) (v g)]"

definition sqrtn_chain9_result :: "int matrix ScheduledResult" where
  "sqrtn_chain9_result =
     \<lparr> solve_strategy = CHEN_SQRTN_NOAP, solver_budget = 0, feasible = True,
       schedule = Some [[0, 0, 1, 0, 0, 1, 0, 0, 1]],
       schedule_aux_data = Some \<lparr> cpu = 7, activation_ram = 3 \<rparr>,
       solve_time_s = Some 0, ilp_aux_data = None \<rparr>"

section \<open>Rounding to 53 bits\<close>

lemma bitlen_bounds: "n \<noteq> 0 \<Longrightarrow> 2 ^ (bitlen n - 1) \<le> n \<and> n < 2 ^ bitlen n"
proof (induction n rule: bitlen.induct)
  case (1 n)
  show ?case
  proof (cases "n div 2 = 0")
    case True
    with "1.prems" have "n = 1" by (cases n) auto
    then show ?thesis by (simp add: bitlen.simps[of "Suc 0"] bitlen.simps[of 0])
  next
    case False
    with "1.IH" "1.prems" have ih: "2 ^ (bitlen (n div 2) - 1) \<le> n div 2" "n div 2 < 2 ^ bitlen (n div 2)"
      by auto
    have pos: "0 < bitlen (n div 2)"
      using False by (simp add: bitlen.simps[of "n div 2"])
    have b: "bitlen n = Suc (bitlen (n div 2))"
      using "1.prems" by (simp add: bitlen.simps[of n])
    from pos have e: "(2::nat) ^ bitlen (n div 2) = 2 * 2 ^ (bitlen (n div 2) - 1)"
      by (cases "bitlen (n div 2)") auto
    from ih(1) have "2 * 2 ^ (bitlen (n div 2) - 1) \<le> n" by linarith
    moreover from ih(2) have "n < 2 * 2 ^ bitlen (n div 2)" by linarith
    ultimately show ?thesis using b e by simp
  qed
qed

lemma bitlen_unique:
  assumes "2 ^ k \<le> n" and "n < 2 ^ Suc k"
  shows "bitlen n = Suc k"
proof -
  from assms(1) have "n \<noteq> 0" by (cases "n = 0") simp_all
  from bitlen_bounds[OF this] have lo: "2 ^ (bitlen n - 1) \<le> n" and hi: "n < 2 ^ bitlen n"
    by auto
  from lo assms(2) have "(2::nat) ^ (bitlen n - 1) < 2 ^ Suc k" by (rule le_less_trans)
  then have a: "bitlen n - 1 < Suc k" by (simp only: power_strict_increasing_iff)
  from assms(1) hi have "(2::nat) ^ k < 2 ^ bitlen n" by (rule le_less_trans)
  then have "k < bitlen n" by (simp only: power_strict_increasing_iff)
  with a show ?thesis by simp
qed

lemma bitlen_power: "bitlen (2 ^ k) = Suc k"
  by (induction k) (simp_all add: bitlen.simps[of "2 * _"] bitlen.simps[of "Suc 0"] bitlen.simps[of 0])

lemma round53_small: "n < 2 ^ 53 \<Longrightarrow> round53 n = n"
  by (simp add: round53_def)

lemma round53_large:
  assumes "2 ^ 53 \<le> n"
  shows "2 ^ 52 * 2 ^ (bitlen n - 53) \<le> n"
    and "round53 n = (n div 2 ^ (bitlen n - 53)) * 2 ^ (bitlen n - 53)
       \<or> round53 n = (n div 2 ^ (bitlen n - 53) + 1) * 2 ^ (bitlen n - 53)"
proof -
  from assms have nz: "n \<noteq> 0" by auto
  from bitlen_bounds[OF nz] have lo: "2 ^ (bitlen n - 1) \<le> n" and hi: "n < 2 ^ bitlen n"
    by auto
  from assms hi have "(2::nat) ^ 53 < 2 ^ bitlen n" by linarith
  then have "53 < bitlen n" by (simp only: power_strict_increasing_iff)
  then have "bitlen n - 1 = 52 + (bitlen n - 53)" by simp
  with lo show "2 ^ 52 * 2 ^ (bitlen n - 53) \<le> n"
    by (simp only: power_add)
  from assms show "round53 n = (n div 2 ^ (bitlen n - 53)) * 2 ^ (bitlen n - 53)
       \<or> round53 n = (n div 2 ^ (bitlen n - 53) + 1) * 2 ^ (bitlen n - 53)"
    by (simp add: round53_def Let_def)
qed

lemma round53_power:
  assumes "53 \<le> k"
  shows "round53 (2 ^ k) = 2 ^ k"
proof -
  have "(2::nat) ^ 53 \<le> 2 ^ k"
    using assms by (intro power_increasing) simp_all
  then have ge: "\<not> (2::nat) ^ k < 2 ^ 53"
    by (simp only: not_less)
  have s: "bitlen (2 ^ k) - 53 = k - 52"
    using assms by (simp add: bitlen_power)
  have k: "k = 52 + (k - 52)"
    using assms by simp
  have q: "(2::nat) ^ k div 2 ^ (k - 52) = 2 ^ 52"
    by (subst k) (simp only: power_add nonzero_mult_div_cancel_right power_not_zero, simp)
  have r: "(2::nat) ^ k mod 2 ^ (k - 52) = 0"
    by (subst k) (simp only: power_add mod_mult_self2_is_0)
  have h: "(0::nat) < 2 ^ (k - 52 - 1)"
    by simp
  have "(2::nat) ^ 52 * 2 ^ (k - 52) = 2 ^ k"
    by (subst (2) k) (simp only: power_add)
  then show ?thesis
    using ge h by (simp add: round53_def Let_def s q r del: power_Suc)
qed

lemma round53_upper: "4503599627370496 * round53 n \<le> 4503599627370497 * n"
proof (cases "n < 2 ^ 53")
  case True
  then show ?thesis by (simp add: round53_def)
next
  case False
  then have ge: "2 ^ 53 \<le> n" by simp
  define X where "X = (2::nat) ^ (bitlen n - 53)"
  define q where "q = n div X"
  from round53_large(1)[OF ge] have lo: "4503599627370496 * X \<le> n"
    by (simp add: X_def)
  have "q * X \<le> n" by (simp add: q_def)
  moreover from round53_large(2)[OF ge] have "round53 n = q * X \<or> round53 n = (q + 1) * X"
    by (simp only: X_def q_def)
  ultimately have "round53 n \<le> n + X" by auto
  with lo show ?thesis by linarith
qed

section \<open>The selection rule\<close>

lemma keep_best_within:
  "keep_best B cs best = Some (c, a) \<Longrightarrow> (\<And>c' a'. best = Some (c', a') \<Longrightarrow> activation_ram a' \<le> B)
    \<Longrightarrow> activation_ram a \<le> B"
proof (induction cs arbitrary: best)
  case Nil
  then show ?case by simp
next
  case (Cons x cs)
  obtain c' a' where x: "x = (c', a')" by (cases x)
  show ?case
  proof (rule Cons.IH)
    show "keep_best B cs (if supersedes B a' best then Some (c', a') else best) = Some (c, a)"
      using Cons.prems(1) x by simp
  next
    fix c'' a''
    assume "(if supersedes B a' best then Some (c', a') else best) = Some (c'', a'')"
    then show "activation_ram a'' \<le> B"
      using Cons.prems(2) by (auto simp: supersedes_def split: if_splits)
  qed
qed

lemma keep_best_none:
  "(keep_best B cs best = None) = (best = None \<and> (\<forall>x \<in> set cs. \<not> activation_ram (snd x) \<le> B))"
  by (induction cs arbitrary: best) (fastforce simp: supersedes_def split: option.splits if_splits)+

lemma keep_best_last_min:
  "keep_best B cs best = Some (c, a) \<Longrightarrow>
     (best = Some (c, a) \<and> (\<forall>x \<in> set cs. activation_ram (snd x) \<le> B \<longrightarrow> cpu a < cpu (snd x)))
   \<or> (\<exists>pre post. cs = pre @ (c, a) # post \<and> activation_ram a \<le> B
         \<and> (\<forall>b. best = Some b \<longrightarrow> cpu a \<le> cpu (snd b))
         \<and> (\<forall>x \<in> set pre. activation_ram (snd x) \<le> B \<longrightarrow> cpu a \<le> cpu (snd x))
         \<and> (\<forall>x \<in> set post. activation_ram (snd x) \<le> B \<longrightarrow> cpu a < cpu (snd x)))"
proof (induction cs arbitrary: best)
  case Nil
  then show ?case by simp
next
  case (Cons x cs)
  obtain c' a' where x: "x = (c', a')" by (cases x)
  let ?best' = "if supersedes B a' best then Some (c', a') else best"
  have kb: "keep_best B cs ?best' = Some (c, a)"
    using Cons.prems x by simp
  from Cons.IH[OF kb] show ?case
  proof
    assume h: "?best' = Some (c, a) \<and> (\<forall>x \<in> set cs. activation_ram (snd x) \<le> B \<longrightarrow> cpu a < cpu (snd x))"
    show ?thesis
    proof (cases "supersedes B a' best")
      case True
      with h have eq: "c' = c" "a' = a" by auto
      have "x # cs = [] @ (c, a) # cs" using x eq by simp
      moreover have "activation_ram a \<le> B" using True eq by (simp add: supersedes_def)
      moreover have "\<forall>b. best = Some b \<longrightarrow> cpu a \<le> cpu (snd b)"
        using True eq by (auto simp: supersedes_def)
      ultimately have "\<exists>pre post. x # cs = pre @ (c, a) # post \<and> activation_ram a \<le> B
         \<and> (\<forall>b. best = Some b \<longrightarrow> cpu a \<le> cpu (snd b))
         \<and> (\<forall>x \<in> set pre. activation_ram (snd x) \<le> B \<longrightarrow> cpu a \<le> cpu (snd x))
         \<and> (\<forall>x \<in> set post. activation_ram (snd x) \<le> B \<longrightarrow> cpu a < cpu (snd x))"
        using h by (intro exI[of _ "[]"] exI[of _ cs]) simp
      then show ?thesis by (rule disjI2)
    next
      case False
      with h have "best = Some (c, a)" by simp
      moreover have "activation_ram a' \<le> B \<longrightarrow> cpu a < cpu a'"
        using False \<open>best = Some (c, a)\<close> by (auto simp: supersedes_def)
      ultimately show ?thesis using h x by auto
    qed
  next
    assume "\<exists>pre post. cs = pre @ (c, a) # post \<and> activation_ram a \<le> B
         \<and> (\<forall>b. ?best' = Some b \<longrightarrow> cpu a \<le> cpu (snd b))
         \<and> (\<forall>x \<in> set pre. activation_ram (snd x) \<le> B \<longrightarrow> cpu a \<le> cpu (snd x))
         \<and> (\<forall>x \<in> set post. activation_ram (snd x) \<le> B \<longrightarrow> cpu a < cpu (snd x))"
    then obtain pre post where p: "cs = pre @ (c, a) # post" "activation_ram a \<le> B"
        "\<forall>b. ?best' = Some b \<longrightarrow> cpu a \<le> cpu (snd b)"
        "\<forall>x \<in> set pre. activation_ram (snd x) \<le> B \<longrightarrow> cpu a \<le> cpu (snd x)"
        "\<forall>x \<in> set post. activation_ram (snd x) \<le> B \<longrightarrow> cpu a < cpu (snd x)"
      by blast
    have xa: "activation_ram a' \<le> B \<longrightarrow> cpu a \<le> cpu a'"
      using p(3) by (cases best) (auto simp: supersedes_def split: if_splits)
    have bb: "\<forall>b. best = Some b \<longrightarrow> cpu a \<le> cpu (snd b)"
      using p(3) by (cases best) (auto simp: supersedes_def split: if_splits)
    have "x # cs = (x # pre) @ (c, a) # post" using p(1) by simp
    moreover have "\<forall>y \<in> set (x # pre). activation_ram (snd y) \<le> B \<longrightarrow> cpu a \<le> cpu (snd y)"
      using xa p(4) x by simp
    ultimately have "\<exists>pre post. x # cs = pre @ (c, a) # post \<and> activation_ram a \<le> B
         \<and> (\<forall>b. best = Some b \<longrightarrow> cpu a \<le> cpu (snd b))
         \<and> (\<forall>x \<in> set pre. activation_ram (snd x) \<le> B \<longrightarrow> cpu a \<le> cpu (snd x))
         \<and> (\<forall>x \<in> set post. activation_ram (snd x) \<le> B \<longrightarrow> cpu a < cpu (snd x))"
      using p(2) p(5) bb by (intro exI[of _ "x # pre"] exI[of _ post]) simp
    then show ?thesis by (rule disjI2)
  qed
qed

section \<open>The loops as runs of the selection rule\<close>

lemma sweep_rounding_allow_irrelevant:
  "sweep_rounding R F g B allow s ths (sc, Some a, th) = sweep_rounding R F g B False s ths (sc, Some a, th)"
  by (induction ths arbitrary: sc a th) (simp_all add: Let_def split: prod.splits)

lemma sweep_rounding_keep_best:
  "sweep_rounding R F g B False s ths (sweep_state_of best) =
     sweep_state_of (keep_best B (sweep_candidates R F g s ths) best)"
proof (induction ths arbitrary: best)
  case Nil
  then show ?case by (simp add: sweep_candidates_def)
next
  case (Cons th ths)
  obtain sc a where c: "threshold_candidate R F g s th = (sc, a)"
    by (cases "threshold_candidate R F g s th")
  then have c': "F g (R g (ge_threshold s th)) (ge_threshold s th) = (sc, a)"
    by (simp add: threshold_candidate_def)
  have cands: "sweep_candidates R F g s (th # ths) = ((sc, th), a) # sweep_candidates R F g s ths"
    using c by (simp add: sweep_candidates_def)
  show ?case
  proof (cases "supersedes B a best")
    case True
    then have "sweep_rounding R F g B False s (th # ths) (sweep_state_of best) =
        sweep_rounding R F g B False s ths (sweep_state_of (Some ((sc, th), a)))"
      using c' by (cases best) (auto simp: sweep_state_of_def supersedes_def)
    then show ?thesis using True cands Cons.IH by simp
  next
    case False
    then have "sweep_rounding R F g B False s (th # ths) (sweep_state_of best) =
        sweep_rounding R F g B False s ths (sweep_state_of best)"
      using c' by (cases best) (auto simp: sweep_state_of_def supersedes_def)
    then show ?thesis using False cands Cons.IH by simp
  qed
qed

lemma sweep_rounding_allow_first:
  "sweep_rounding R F g B True s (th # ths) (None, None, None) =
     sweep_rounding R F g B False s ths
       (Some (fst (threshold_candidate R F g s th)), Some (snd (threshold_candidate R F g s th)), Some th)"
  by (simp add: threshold_candidate_def Let_def sweep_rounding_allow_irrelevant[where allow=True] split: prod.splits)

lemma randomized_rounding_keep_best:
  "randomized_rounding rand R F g B s n (best_solution_of best, stats, rng) =
     (best_solution_of (keep_best B (round_candidates R F g s (round_draws rand rng (shape s) n)) best),
      append_stats B stats (round_candidates R F g s (round_draws rand rng (shape s) n)),
      rng_after rand rng (shape s) n)"
proof (induction n arbitrary: best stats rng)
  case 0
  then show ?case by (simp add: round_candidates_def append_stats_def)
next
  case (Suc n)
  obtain a rng' where d: "rand rng (shape s) = (a, rng')" by (cases "rand rng (shape s)")
  obtain sc aux where c: "draw_candidate R F g s a = (sc, aux)"
    by (cases "draw_candidate R F g s a")
  then have c': "F g (R g (le_matrix a s)) (le_matrix a s) = (sc, aux)"
    by (simp add: draw_candidate_def)
  let ?stats' = "\<lparr> stat_cpu = stat_cpu stats @ [cpu aux],
                     stat_activation_ram = stat_activation_ram stats @ [activation_ram aux],
                     stat_in_budget = stat_in_budget stats @ [activation_ram aux \<le> B] \<rparr>"
  let ?best' = "if supersedes B aux best then Some (sc, aux) else best"
  have cond: "(activation_ram aux \<le> B \<and>
            (snd (snd (best_solution_of best)) = None \<or> cost_le (cpu aux) (fst (best_solution_of best))))
          = supersedes B aux best"
    by (cases best) (auto simp: best_solution_of_def supersedes_def)
  have step: "randomized_rounding rand R F g B s (Suc n) (best_solution_of best, stats, rng) =
      randomized_rounding rand R F g B s n (best_solution_of ?best', ?stats', rng')"
    using d c' cond by (simp add: best_solution_of_def)
  have cands: "round_candidates R F g s (round_draws rand rng (shape s) (Suc n)) =
       (sc, aux) # round_candidates R F g s (round_draws rand rng' (shape s) n)"
    using d c by (simp add: round_candidates_def)
  have st: "append_stats B ?stats' cs = append_stats B stats ((sc, aux) # cs)" for cs
    by (simp add: append_stats_def)
  show ?case
    unfolding step Suc.IH cands st using d by simp
qed

section \<open>What the entry points return\<close>

lemma try_solve_cases:
  "try_solve lp = Inr None \<longleftrightarrow> solve lp = Inl ValueError"
  "try_solve lp = Inr (Some x) \<longleftrightarrow> solve lp = Inr x"
  "try_solve lp = Inl e \<longleftrightarrow> solve lp = Inl e \<and> e \<noteq> ValueError"
  by (auto simp: try_solve_def split: sum.splits exn.splits)

lemma sweep_rounding_from_empty:
  "sweep_rounding R F g B False s ths (None, None, None) =
     sweep_state_of (keep_best B (sweep_candidates R F g s ths) None)"
  using sweep_rounding_keep_best[of R F g B s ths None] by (simp add: sweep_state_of_def)

lemma sweep_rounding_within_budget:
  assumes "sweep_rounding R F g B False s ths (None, None, None) = (sc, Some a, th)"
  shows "activation_ram a \<le> B"
proof -
  from assms obtain c where "keep_best B (sweep_candidates R F g s ths) None = Some (c, a)"
    by (auto simp: sweep_rounding_from_empty sweep_state_of_def split: option.splits)
  then show ?thesis by (rule keep_best_within) simp
qed

lemma sweep_rounding_consistent:
  "sweep_rounding R F g B allow s ths (None, None, None) = (sc, a, th) \<Longrightarrow>
     (sc = None \<longleftrightarrow> a = None) \<and> (th = None \<longleftrightarrow> a = None)"
proof (cases ths)
  case Nil
  assume "sweep_rounding R F g B allow s ths (None, None, None) = (sc, a, th)"
  with Nil show ?thesis by auto
next
  case (Cons t ts)
  assume h: "sweep_rounding R F g B allow s ths (None, None, None) = (sc, a, th)"
  show ?thesis
  proof (cases allow)
    case False
    with h show ?thesis
      by (auto simp: sweep_rounding_from_empty sweep_state_of_def split: option.splits)
  next
    case True
    obtain sc1 a1 where c: "threshold_candidate R F g s t = (sc1, a1)"
      by (cases "threshold_candidate R F g s t")
    have "sweep_rounding R F g B True s (t # ts) (None, None, None) =
            sweep_rounding R F g B False s ts (sweep_state_of (Some ((sc1, t), a1)))"
      using c sweep_rounding_allow_first[of R F g B s t ts]
      by (simp add: sweep_state_of_def del: sweep_rounding.simps)
    then have "sweep_state_of (keep_best B (sweep_candidates R F g s ts) (Some ((sc1, t), a1)))
                 = (sc, a, th)"
      using h True Cons by (simp add: sweep_rounding_keep_best del: sweep_rounding.simps)
    then show ?thesis
      by (auto simp: sweep_state_of_def split: option.splits)
  qed
qed

lemma no_overflow_small: "\<bar>B\<bar> < 2 ^ 53 \<Longrightarrow> \<not> float_overflows B"
  by (simp add: float_overflows_def round53_def nat_less_iff)

lemma float_overflows_power: "1024 \<le> k \<Longrightarrow> float_overflows (2 ^ k)"
proof -
  assume k: "1024 \<le> k"
  then have "53 \<le> k" by simp
  then have "round53 (2 ^ k) = 2 ^ k" by (rule round53_power)
  moreover have "nat \<bar>2 ^ k :: int\<bar> = 2 ^ k"
    by (simp add: nat_power_eq)
  moreover have "(2::nat) ^ 1024 \<le> 2 ^ k"
    using k by (intro power_increasing) simp_all
  ultimately show ?thesis by (simp only: float_overflows_def)
qed

lemma sweep_returns_no_overflow:
  "solve_approx_lp_deterministic_sweep I R F g B opts ths imp allow = Inr res
    \<Longrightarrow> \<not> float_overflows B"
  by (auto simp: solve_approx_lp_deterministic_sweep_def)

lemma randomized_returns_no_overflow:
  "fst (solve_approx_lp_randomized rand I R F rng g B opts n rr) = Inr r
    \<Longrightarrow> \<not> float_overflows B"
  by (auto simp: solve_approx_lp_randomized_def)

lemma sweep_feasible_within_budget:
  assumes "solve_approx_lp_deterministic_sweep I R F g B opts ths imp False = Inr res"
    and "feasible res"
  shows "within_budget B res"
proof -
  let ?lp = "I (lp_relaxation_args g B opts (Some imp))"
  note no = sweep_returns_no_overflow[OF assms(1)]
  from assms no obtain x where x: "try_solve ?lp = Inr (Some x)"
    by (auto simp: solve_approx_lp_deterministic_sweep_def Let_def split: sum.splits option.splits prod.splits)
  obtain sc a th where st: "sweep_rounding R F g B False (sol_s x) ths (None, None, None) = (sc, a, th)"
    by (cases "sweep_rounding R F g B False (sol_s x) ths (None, None, None)")
  from assms no x st have "schedule_aux_data res = a" "a \<noteq> None"
    by (auto simp: solve_approx_lp_deterministic_sweep_def Let_def)
  moreover from this obtain a' where "a = Some a'" by auto
  ultimately show ?thesis
    using sweep_rounding_within_budget[of R F g B "sol_s x" ths sc a' th] st
    by (simp add: within_budget_def)
qed

lemma sweep_flag_is_presence:
  assumes "solve_approx_lp_deterministic_sweep I R F g B opts ths imp allow = Inr res"
  shows "feasible res = (schedule_aux_data res \<noteq> None)"
    and "(schedule res = None) = (schedule_aux_data res = None)"
proof -
  let ?lp = "I (lp_relaxation_args g B opts (Some imp))"
  note no = sweep_returns_no_overflow[OF assms]
  from assms no obtain sol where sol: "try_solve ?lp = Inr sol"
    by (auto simp: solve_approx_lp_deterministic_sweep_def Let_def split: sum.splits)
  show "feasible res = (schedule_aux_data res \<noteq> None)"
    using assms no sol
    by (cases sol) (auto simp: solve_approx_lp_deterministic_sweep_def Let_def split: prod.splits)
  show "(schedule res = None) = (schedule_aux_data res = None)"
  proof (cases sol)
    case None
    with assms no sol show ?thesis
      by (auto simp: solve_approx_lp_deterministic_sweep_def Let_def)
  next
    case (Some x)
    obtain sc a th where st: "sweep_rounding R F g B allow (sol_s x) ths (None, None, None) = (sc, a, th)"
      by (cases "sweep_rounding R F g B allow (sol_s x) ths (None, None, None)")
    from sweep_rounding_consistent[OF st] assms no sol Some st show ?thesis
      by (auto simp: solve_approx_lp_deterministic_sweep_def Let_def)
  qed
qed

lemma randomized_rounding_from_empty:
  "randomized_rounding rand R F g B s n
       ((PyInf, None, None), \<lparr> stat_cpu = [], stat_activation_ram = [], stat_in_budget = [] \<rparr>, rng) =
     (best_solution_of (keep_best B (round_candidates R F g s (round_draws rand rng (shape s) n)) None),
      append_stats B \<lparr> stat_cpu = [], stat_activation_ram = [], stat_in_budget = [] \<rparr>
        (round_candidates R F g s (round_draws rand rng (shape s) n)),
      rng_after rand rng (shape s) n)"
  using randomized_rounding_keep_best[of rand R F g B s n None] by (simp add: best_solution_of_def)

lemma randomized_schedule_within_budget:
  assumes "fst (solve_approx_lp_randomized rand I R F rng g B opts n rr) = Inr (res, st)"
    and "schedule_aux_data res \<noteq> None"
  shows "within_budget B res"
proof -
  let ?lp = "I (lp_relaxation_args g B opts None)"
  note no = randomized_returns_no_overflow[OF assms(1)]
  from assms no obtain sol where sol: "try_solve ?lp = Inr sol"
    by (auto simp: solve_approx_lp_randomized_def Let_def split: sum.splits)
  show ?thesis
  proof (cases sol)
    case None
    with assms no sol show ?thesis
      by (auto simp: solve_approx_lp_randomized_def Let_def)
  next
    case (Some x)
    let ?kb = "keep_best B (round_candidates R F g (sol_s x) (round_draws rand rng (shape (sol_s x)) (nat n))) None"
    from assms no sol Some have aux: "schedule_aux_data res = snd (snd (best_solution_of ?kb))"
      by (auto simp: solve_approx_lp_randomized_def Let_def randomized_rounding_from_empty)
    with assms(2) obtain sc a where kb: "?kb = Some (sc, a)"
      by (cases ?kb) (auto simp: best_solution_of_def)
    then have "activation_ram a \<le> B" by (rule keep_best_within) simp
    with aux kb show ?thesis by (simp add: within_budget_def best_solution_of_def)
  qed
qed

section \<open>The greedy heuristic on the chain\<close>

lemma chain10_checkpoints: "chen_greedy_checkpoints chain10 3 False = Inr {3, 7}"
  by (auto simp add: chen_greedy_checkpoints_def chain10_def)

text \<open>
  C3, as the code has it. On the chain of 10 vertices with memory cost 1 each,
  \<^verbatim>\<open>solve_chen_greedy\<close> with \<^verbatim>\<open>segment_mem_B = 3\<close> and \<^verbatim>\<open>use_actuation_points=False\<close>
  selects exactly the checkpoint set \<open>{3, 7}\<close>, and builds the stored matrix from it: the
  running total exceeds 3 first at vertex 3 (total 4); after the reset to zero it exceeds
  3 again only four vertices later, at vertex 7; vertices 8 and 9 bring it to 2.
\<close>

theorem chain10_greedy_checkpoints:
  "chen_greedy_checkpoints chain10 3 False = Inr {3, 7} \<and>
   map_sum id schedule (solve_chen_greedy gen R F t chain10 3 False) =
     Inr (Some (fst (F chain10 (R chain10 (gen chain10 {3, 7})) (gen chain10 {3, 7}))))"
  by (simp add: solve_chen_greedy_def chain10_checkpoints Let_def split: prod.splits)

text \<open>
  C3, as stated, fails: the checkpoint set of that run is not \<open>{3, 6, 9}\<close>. At vertex 6
  the running total is 3, which does not exceed the threshold 3.
\<close>

theorem chain10_greedy_not_3_6_9:
  "chen_greedy_checkpoints chain10 3 False \<noteq> Inr {3, 6, 9}"
proof
  assume "chen_greedy_checkpoints chain10 3 False = Inr {3, 6, 9}"
  then have "{3, 7} = {3, 6, 9 :: nat}"
    by (simp add: chain10_checkpoints)
  then have "(7 :: nat) \<in> {3, 6, 9}"
    by blast
  then show False
    by simp
qed

section \<open>Concrete runs of the rounding entry points\<close>

lemmas concrete_defs = no_overflow_small
  ILPSolver_ok_def ILPSolver_infeasible_def ILPSolver_crash_def
  solve_r_opt_id_def schedule_count_def relaxed_solution_def default_opts_def
  rand_counter_def normal_counter_def ilp_aux_of_def make_ilp_aux_data_def try_solve_def
  ge_threshold_def le_matrix_def shape_def default_thresholds_def threshold_candidate_def

text \<open>
  C10. In the sweep with \<^verbatim>\<open>allow_return_infeasible_schedule=True\<close>, the candidate of the
  first threshold is accepted whatever its memory use, and with a current best in place a
  later candidate replaces it exactly when it is within budget and its \<open>cpu\<close> is at most
  the best's. Consequently a returned schedule can be over budget although a later
  threshold gave a candidate within budget with a higher \<open>cpu\<close>: with budget 2 and the
  default thresholds, the run on the fractional matrix \<open>[[0.25, 0.45, 0.75]]\<close> returns the
  candidate of threshold 0.1 (memory 3, \<open>cpu\<close> 7), while threshold 0.3 gives a candidate
  with memory 2 and \<open>cpu\<close> 8.
\<close>

theorem allow_infeasible_first_candidate:
  "sweep_rounding R F g B True s (th # ths) (None, None, None) =
     sweep_rounding R F g B True s ths
       (Some (fst (threshold_candidate R F g s th)),
        Some (snd (threshold_candidate R F g s th)), Some th)
   \<and> sweep_rounding R F g B True s (th # ths) (Some sc, Some a, Some t) =
     sweep_rounding R F g B True s ths
       (if activation_ram (snd (threshold_candidate R F g s th)) \<le> B
           \<and> cpu (snd (threshold_candidate R F g s th)) \<le> cpu a
        then (Some (fst (threshold_candidate R F g s th)),
              Some (snd (threshold_candidate R F g s th)), Some th)
        else (Some sc, Some a, Some t))
   \<and> solve_approx_lp_deterministic_sweep ILPSolver_ok solve_r_opt_id schedule_count chain3 2
        default_opts default_thresholds FULL_SCHEDULE True = Inr over_budget_result
   \<and> schedule_aux_data over_budget_result = Some \<lparr> cpu = 7, activation_ram = 3 \<rparr>
   \<and> \<not> within_budget 2 over_budget_result
   \<and> snd (threshold_candidate solve_r_opt_id schedule_count chain3 (sol_s relaxed_solution) (3 / 10))
        = \<lparr> cpu = 8, activation_ram = 2 \<rparr>"
proof -
  have first: "sweep_rounding R F g B True s (th # ths) (None, None, None) =
     sweep_rounding R F g B True s ths
       (Some (fst (threshold_candidate R F g s th)),
        Some (snd (threshold_candidate R F g s th)), Some th)"
    by (simp add: threshold_candidate_def Let_def split: prod.splits)
  have later: "sweep_rounding R F g B True s (th # ths) (Some sc, Some a, Some t) =
     sweep_rounding R F g B True s ths
       (if activation_ram (snd (threshold_candidate R F g s th)) \<le> B
           \<and> cpu (snd (threshold_candidate R F g s th)) \<le> cpu a
        then (Some (fst (threshold_candidate R F g s th)),
              Some (snd (threshold_candidate R F g s th)), Some th)
        else (Some sc, Some a, Some t))"
    by (simp add: threshold_candidate_def Let_def split: prod.splits)
  have run: "solve_approx_lp_deterministic_sweep ILPSolver_ok solve_r_opt_id schedule_count chain3 2
        default_opts default_thresholds FULL_SCHEDULE True = Inr over_budget_result"
    by (simp add: solve_approx_lp_deterministic_sweep_def concrete_defs over_budget_result_def)
  have over: "schedule_aux_data over_budget_result = Some \<lparr> cpu = 7, activation_ram = 3 \<rparr>"
      "\<not> within_budget 2 over_budget_result"
    by (simp_all add: over_budget_result_def within_budget_def)
  have cand: "snd (threshold_candidate solve_r_opt_id schedule_count chain3 (sol_s relaxed_solution) (3 / 10))
        = \<lparr> cpu = 8, activation_ram = 2 \<rparr>"
    by (simp add: concrete_defs)
  from first later run over cand show ?thesis by blast
qed

text \<open>
  When the relaxation solve succeeds and no candidate of the sweep is within budget, the
  sweep without allow-infeasible reports an infeasible, empty result.
\<close>

lemma sweep_without_candidate_infeasible:
  assumes no: "\<not> float_overflows B"
    and s: "solve (I (lp_relaxation_args g B opts (Some imp))) = Inr x"
    and none: "\<forall>t \<in> set ths. \<not> activation_ram (snd (threshold_candidate R F g (sol_s x) t)) \<le> B"
  shows "\<exists>res. solve_approx_lp_deterministic_sweep I R F g B opts ths imp False = Inr res
           \<and> \<not> feasible res \<and> schedule res = None \<and> schedule_aux_data res = None"
proof -
  have "keep_best B (sweep_candidates R F g (sol_s x) ths) None = None"
    using none by (simp add: keep_best_none sweep_candidates_def)
  then have "sweep_rounding R F g B False (sol_s x) ths (None, None, None) = (None, None, None)"
    by (simp add: sweep_rounding_from_empty sweep_state_of_def)
  with no s show ?thesis
    by (simp add: solve_approx_lp_deterministic_sweep_def try_solve_def Let_def)
qed

text \<open>
  C2, evaluated at a failing input. The relaxation solve succeeds, the single round of
  \<^verbatim>\<open>solve_approx_lp_randomized\<close> gives a candidate over budget (memory 3, budget 2), and
  allow-infeasible does not exist for this entry point: the result has no schedule, and
  yet its flag is \<open>feasible = True\<close>, since the flag is \<^verbatim>\<open>lp_feasible\<close> alone, where the
  sweep has \<^verbatim>\<open>lp_feasible and aux_data is not None\<close>.
\<close>

theorem randomized_no_candidate_flag:
  "fst (solve_approx_lp_randomized rand_counter ILPSolver_ok solve_r_opt_id schedule_count 0
          chain3 2 default_opts 1 True) =
     Inr (no_candidate_result,
          Some \<lparr> stat_cpu = [7], stat_activation_ram = [3], stat_in_budget = [False] \<rparr>)
   \<and> feasible no_candidate_result \<and> schedule no_candidate_result = None"
  by (simp add: solve_approx_lp_randomized_def concrete_defs no_candidate_result_def)

section \<open>The feasibility flag and the budget\<close>

text \<open>
  C1, evaluated at a failing input. The sweep with
  \<^verbatim>\<open>allow_return_infeasible_schedule=True\<close>, budget 0 and the single threshold 0.5 accepts
  its first candidate, whose \<open>activation_ram\<close> is 1, and returns it with
  \<open>feasible = True\<close>, where C1 has \<open>feasible = False\<close>. The flag is
  \<^verbatim>\<open>lp_feasible and aux_data is not None\<close> (line 76), and the allow-infeasible branch of the
  acceptance test (line 67) sets \<^verbatim>\<open>aux_data\<close> without the budget test, so the flag no longer
  tells that the schedule is within budget. The flag of the randomized rounding is wrong
  in the converse way (C2).
\<close>

theorem sweep_allow_infeasible_flag_over_budget:
  "solve_approx_lp_deterministic_sweep ILPSolver_ok solve_r_opt_id schedule_count chain3 0
     default_opts [1 / 2] FULL_SCHEDULE True = Inr zero_budget_result
   \<and> feasible zero_budget_result
   \<and> schedule_aux_data zero_budget_result = Some \<lparr> cpu = 9, activation_ram = 1 \<rparr>
   \<and> \<not> within_budget 0 zero_budget_result"
  by (simp add: solve_approx_lp_deterministic_sweep_def concrete_defs zero_budget_result_def
      within_budget_def)

text \<open>
  Where the flag is right. Without allow-infeasible, a result of the sweep, of the
  single threshold 0.5 or of the random thresholds that is marked feasible carries
  aggregate statistics with \<open>activation_ram \<le> B\<close>, and every result of the randomized
  rounding that carries a schedule has \<open>activation_ram \<le> B\<close>. In allow-infeasible mode
  the flag of the sweep is \<open>True\<close> exactly when the result carries aggregate statistics.
\<close>

lemma feasible_flag_within_budget:
  "(solve_approx_lp_deterministic_sweep I R F g B opts ths imp False = Inr resa
      \<longrightarrow> feasible resa \<longrightarrow> within_budget B resa)
   \<and> (solve_approx_lp_deterministic_05_threshold I R F g B opts n False = Inr resb
      \<longrightarrow> feasible resb \<longrightarrow> within_budget B resb)
   \<and> (fst (solve_approx_lp_deterministic_rand_threshold N I R F rng g B opts n') = Inr resc
      \<longrightarrow> feasible resc \<longrightarrow> within_budget B resc)
   \<and> (fst (solve_approx_lp_randomized rand I R F rng' g B opts k rr) = Inr (resd, st)
      \<longrightarrow> schedule_aux_data resd \<noteq> None \<longrightarrow> within_budget B resd)
   \<and> (solve_approx_lp_deterministic_sweep I R F g B opts ths imp True = Inr rese
      \<longrightarrow> feasible rese = (schedule_aux_data rese \<noteq> None))"
proof (intro conjI impI)
  assume "solve_approx_lp_deterministic_sweep I R F g B opts ths imp False = Inr resa"
    and "feasible resa"
  then show "within_budget B resa" by (rule sweep_feasible_within_budget)
next
  assume "solve_approx_lp_deterministic_05_threshold I R F g B opts n False = Inr resb"
    and "feasible resb"
  then show "within_budget B resb"
    unfolding solve_approx_lp_deterministic_05_threshold_def by (rule sweep_feasible_within_budget)
next
  assume h: "fst (solve_approx_lp_deterministic_rand_threshold N I R F rng g B opts n') = Inr resc"
    and f: "feasible resc"
  from h have "solve_approx_lp_deterministic_sweep I R F g B opts
        (fst (draw_thresholds N rng (nat n'))) FULL_SCHEDULE False = Inr resc"
    by (simp add: solve_approx_lp_deterministic_rand_threshold_def split: prod.splits)
  then show "within_budget B resc" using f by (rule sweep_feasible_within_budget)
next
  assume "fst (solve_approx_lp_randomized rand I R F rng' g B opts k rr) = Inr (resd, st)"
    and "schedule_aux_data resd \<noteq> None"
  then show "within_budget B resd" by (rule randomized_schedule_within_budget)
next
  assume "solve_approx_lp_deterministic_sweep I R F g B opts ths imp True = Inr rese"
  then show "feasible rese = (schedule_aux_data rese \<noteq> None)"
    by (rule sweep_flag_is_presence)
qed

text \<open>
  The theorem at concrete runs with budget 2: the sweep over the default thresholds, the
  single threshold, one random threshold (the draw 0.5), one round of randomized
  rounding, and the sweep in allow-infeasible mode.
\<close>

lemma feasible_flag_within_budget_runs:
  "solve_approx_lp_deterministic_sweep ILPSolver_ok solve_r_opt_id schedule_count chain3 2
      default_opts default_thresholds FULL_SCHEDULE False = Inr within_budget_result
   \<and> solve_approx_lp_deterministic_05_threshold ILPSolver_ok solve_r_opt_id schedule_count chain3 2
      default_opts 1 False = Inr single_threshold_result
   \<and> fst (solve_approx_lp_deterministic_rand_threshold normal_counter ILPSolver_ok solve_r_opt_id
      schedule_count 1 chain3 2 default_opts 1) = Inr single_threshold_result
   \<and> fst (solve_approx_lp_randomized rand_counter ILPSolver_ok solve_r_opt_id schedule_count 3
      chain3 2 default_opts 1 False) = Inr (rounded_result, None)
   \<and> solve_approx_lp_deterministic_sweep ILPSolver_ok solve_r_opt_id schedule_count chain3 2
      default_opts default_thresholds FULL_SCHEDULE True = Inr over_budget_result
   \<and> feasible within_budget_result \<and> within_budget 2 within_budget_result
   \<and> feasible single_threshold_result \<and> within_budget 2 single_threshold_result
   \<and> schedule_aux_data rounded_result \<noteq> None \<and> within_budget 2 rounded_result
   \<and> feasible over_budget_result = (schedule_aux_data over_budget_result \<noteq> None)"
proof -
  have h1: "solve_approx_lp_deterministic_sweep ILPSolver_ok solve_r_opt_id schedule_count chain3 2
      default_opts default_thresholds FULL_SCHEDULE False = Inr within_budget_result"
    by (simp add: solve_approx_lp_deterministic_sweep_def concrete_defs within_budget_result_def)
  have h2: "solve_approx_lp_deterministic_05_threshold ILPSolver_ok solve_r_opt_id schedule_count
      chain3 2 default_opts 1 False = Inr single_threshold_result"
    by (simp add: solve_approx_lp_deterministic_05_threshold_def
        solve_approx_lp_deterministic_sweep_def concrete_defs single_threshold_result_def)
  have h3: "fst (solve_approx_lp_deterministic_rand_threshold normal_counter ILPSolver_ok
      solve_r_opt_id schedule_count 1 chain3 2 default_opts 1) = Inr single_threshold_result"
    by (simp add: solve_approx_lp_deterministic_rand_threshold_def
        solve_approx_lp_deterministic_sweep_def concrete_defs single_threshold_result_def)
  have h4: "fst (solve_approx_lp_randomized rand_counter ILPSolver_ok solve_r_opt_id schedule_count 3
      chain3 2 default_opts 1 False) = Inr (rounded_result, None)"
    by (simp add: solve_approx_lp_randomized_def concrete_defs rounded_result_def)
  have h5: "solve_approx_lp_deterministic_sweep ILPSolver_ok solve_r_opt_id schedule_count chain3 2
      default_opts default_thresholds FULL_SCHEDULE True = Inr over_budget_result"
    by (simp add: solve_approx_lp_deterministic_sweep_def concrete_defs over_budget_result_def)
  have f: "feasible within_budget_result" "feasible single_threshold_result"
      "schedule_aux_data rounded_result \<noteq> None"
    by (simp_all add: within_budget_result_def single_threshold_result_def rounded_result_def)
  note T = feasible_flag_within_budget[where I = ILPSolver_ok and R = solve_r_opt_id
      and F = schedule_count and g = chain3 and B = 2 and opts = default_opts
      and ths = default_thresholds and imp = FULL_SCHEDULE and n = 1 and n' = 1
      and N = normal_counter and rng = 1 and rand = rand_counter and rng' = 3 and k = 1
      and rr = False and resa = within_budget_result and resb = single_threshold_result
      and resc = single_threshold_result and resd = rounded_result and st = None
      and rese = over_budget_result]
  from T h1 f(1) have c1: "within_budget 2 within_budget_result" by blast
  from T h2 f(2) have c2: "within_budget 2 single_threshold_result" by blast
  from T h4 f(3) have c4: "within_budget 2 rounded_result" by blast
  from T h5 have c5: "feasible over_budget_result = (schedule_aux_data over_budget_result \<noteq> None)"
    by blast
  from h1 h2 h3 h4 h5 f c1 c2 c4 c5 show ?thesis by blast
qed

section \<open>Failure of the relaxation solve\<close>

lemma sweep_on_value_error:
  assumes "\<not> float_overflows B"
    and "solve (I (lp_relaxation_args g B opts (Some imp))) = Inl ValueError"
  shows "\<exists>res. solve_approx_lp_deterministic_sweep I R F g B opts ths imp allow = Inr res
           \<and> \<not> feasible res \<and> schedule res = None \<and> schedule_aux_data res = None"
  using assms by (simp add: solve_approx_lp_deterministic_sweep_def try_solve_def Let_def)

lemma randomized_on_value_error:
  assumes "\<not> float_overflows B"
    and "solve (I (lp_relaxation_args g B opts None)) = Inl ValueError"
  shows "\<exists>res. solve_approx_lp_randomized rand I R F rng g B opts k rr =
             (Inr (res, if rr then Some no_stats else None), rng)
           \<and> \<not> feasible res \<and> schedule res = None \<and> schedule_aux_data res = None"
  using assms by (simp add: solve_approx_lp_randomized_def try_solve_def no_stats_def Let_def)

text \<open>
  C5, as stated, fails for an exception that is not a \<^verbatim>\<open>ValueError\<close>: the entry points
  catch \<^verbatim>\<open>ValueError\<close> only, so any other exception raised by \<^verbatim>\<open>lpsolver.solve()\<close> leaves
  the entry point as a raised fault.
\<close>

theorem other_exception_propagates:
  "solve_approx_lp_deterministic_sweep ILPSolver_crash solve_r_opt_id schedule_count chain3 2
     default_opts default_thresholds FULL_SCHEDULE False = Inl OtherException
   \<and> solve (ILPSolver_crash (lp_relaxation_args chain3 2 default_opts (Some FULL_SCHEDULE)))
       = Inl OtherException"
  by (simp add: solve_approx_lp_deterministic_sweep_def concrete_defs)

text \<open>
  C5, as the code has it. When \<^verbatim>\<open>lpsolver.solve()\<close> raises \<^verbatim>\<open>ValueError\<close>, every rounding
  entry point returns a result with \<open>feasible = False\<close>, no schedule and no aggregate
  statistics; the randomized rounding runs no round (empty statistics, generator
  untouched). An exception of \<^verbatim>\<open>solve()\<close> other than \<^verbatim>\<open>ValueError\<close> is not caught and
  propagates to the caller. A run in which \<^verbatim>\<open>solve()\<close> is called is one in which the
  solver was constructed, that is, \<^verbatim>\<open>int(0.9 * budget)\<close> did not raise: this is the
  premise.
\<close>

theorem value_error_reported_infeasible:
  assumes no: "\<not> float_overflows B"
  shows
  "(solve (I (lp_relaxation_args g B opts (Some imp))) = Inl ValueError \<longrightarrow>
      (\<exists>res. solve_approx_lp_deterministic_sweep I R F g B opts ths imp allow = Inr res
           \<and> \<not> feasible res \<and> schedule res = None \<and> schedule_aux_data res = None))
   \<and> (solve (I (lp_relaxation_args g B opts (Some FULL_SCHEDULE))) = Inl ValueError \<longrightarrow>
      (\<exists>res. solve_approx_lp_deterministic_05_threshold I R F g B opts n allow = Inr res
           \<and> \<not> feasible res \<and> schedule res = None \<and> schedule_aux_data res = None)
      \<and> (\<exists>res. fst (solve_approx_lp_deterministic_rand_threshold N I R F rng g B opts n') = Inr res
           \<and> \<not> feasible res \<and> schedule res = None \<and> schedule_aux_data res = None))
   \<and> (solve (I (lp_relaxation_args g B opts None)) = Inl ValueError \<longrightarrow>
      (\<exists>res. solve_approx_lp_randomized rand I R F rng' g B opts k rr =
             (Inr (res, if rr then Some no_stats else None), rng')
           \<and> \<not> feasible res \<and> schedule res = None \<and> schedule_aux_data res = None))
   \<and> (solve (I (lp_relaxation_args g B opts (Some imp))) = Inl e \<longrightarrow> e \<noteq> ValueError \<longrightarrow>
        solve_approx_lp_deterministic_sweep I R F g B opts ths imp allow = Inl e)
   \<and> (solve (I (lp_relaxation_args g B opts None)) = Inl e \<longrightarrow> e \<noteq> ValueError \<longrightarrow>
        solve_approx_lp_randomized rand I R F rng' g B opts k rr = (Inl e, rng'))"
proof (intro conjI impI)
  assume "solve (I (lp_relaxation_args g B opts (Some imp))) = Inl ValueError"
  then show "\<exists>res. solve_approx_lp_deterministic_sweep I R F g B opts ths imp allow = Inr res
           \<and> \<not> feasible res \<and> schedule res = None \<and> schedule_aux_data res = None"
    by (simp add: sweep_on_value_error no)
next
  assume "solve (I (lp_relaxation_args g B opts (Some FULL_SCHEDULE))) = Inl ValueError"
  then show "\<exists>res. solve_approx_lp_deterministic_05_threshold I R F g B opts n allow = Inr res
           \<and> \<not> feasible res \<and> schedule res = None \<and> schedule_aux_data res = None"
    by (simp add: solve_approx_lp_deterministic_05_threshold_def sweep_on_value_error no)
next
  assume h: "solve (I (lp_relaxation_args g B opts (Some FULL_SCHEDULE))) = Inl ValueError"
  have "fst (solve_approx_lp_deterministic_rand_threshold N I R F rng g B opts n') =
          solve_approx_lp_deterministic_sweep I R F g B opts
            (fst (draw_thresholds N rng (nat n'))) FULL_SCHEDULE False"
    by (simp add: solve_approx_lp_deterministic_rand_threshold_def split: prod.splits)
  then show "\<exists>res. fst (solve_approx_lp_deterministic_rand_threshold N I R F rng g B opts n') = Inr res
           \<and> \<not> feasible res \<and> schedule res = None \<and> schedule_aux_data res = None"
    using h by (simp add: sweep_on_value_error no)
next
  assume "solve (I (lp_relaxation_args g B opts None)) = Inl ValueError"
  then show "\<exists>res. solve_approx_lp_randomized rand I R F rng' g B opts k rr =
             (Inr (res, if rr then Some no_stats else None), rng')
           \<and> \<not> feasible res \<and> schedule res = None \<and> schedule_aux_data res = None"
    by (simp add: randomized_on_value_error no)
next
  assume "solve (I (lp_relaxation_args g B opts (Some imp))) = Inl e" "e \<noteq> ValueError"
  then show "solve_approx_lp_deterministic_sweep I R F g B opts ths imp allow = Inl e"
    using no by (cases e) (simp_all add: solve_approx_lp_deterministic_sweep_def try_solve_def)
next
  assume "solve (I (lp_relaxation_args g B opts None)) = Inl e" "e \<noteq> ValueError"
  then show "solve_approx_lp_randomized rand I R F rng' g B opts k rr = (Inl e, rng')"
    using no by (cases e) (simp_all add: solve_approx_lp_randomized_def try_solve_def)
qed

text \<open>
  The theorem at a solver that raises \<^verbatim>\<open>ValueError\<close> and at one that raises another
  exception.
\<close>

theorem value_error_reported_infeasible_witness:
  "\<not> float_overflows 2
   \<and> solve (ILPSolver_infeasible (lp_relaxation_args chain3 2 default_opts (Some FULL_SCHEDULE)))
      = Inl ValueError
   \<and> solve (ILPSolver_infeasible (lp_relaxation_args chain3 2 default_opts None)) = Inl ValueError
   \<and> (\<exists>res. solve_approx_lp_deterministic_sweep ILPSolver_infeasible solve_r_opt_id schedule_count
          chain3 2 default_opts default_thresholds FULL_SCHEDULE True = Inr res
        \<and> \<not> feasible res \<and> schedule res = None \<and> schedule_aux_data res = None)
   \<and> (\<exists>res. solve_approx_lp_deterministic_05_threshold ILPSolver_infeasible solve_r_opt_id
          schedule_count chain3 2 default_opts 1 True = Inr res
        \<and> \<not> feasible res \<and> schedule res = None \<and> schedule_aux_data res = None)
   \<and> (\<exists>res. fst (solve_approx_lp_deterministic_rand_threshold normal_counter ILPSolver_infeasible
          solve_r_opt_id schedule_count 1 chain3 2 default_opts 1) = Inr res
        \<and> \<not> feasible res \<and> schedule res = None \<and> schedule_aux_data res = None)
   \<and> (\<exists>res. solve_approx_lp_randomized rand_counter ILPSolver_infeasible solve_r_opt_id
          schedule_count 3 chain3 2 default_opts 5 True = (Inr (res, Some no_stats), 3)
        \<and> \<not> feasible res \<and> schedule res = None \<and> schedule_aux_data res = None)
   \<and> solve (ILPSolver_crash (lp_relaxation_args chain3 2 default_opts (Some FULL_SCHEDULE)))
      = Inl OtherException
   \<and> solve (ILPSolver_crash (lp_relaxation_args chain3 2 default_opts None)) = Inl OtherException
   \<and> OtherException \<noteq> ValueError
   \<and> solve_approx_lp_deterministic_sweep ILPSolver_crash solve_r_opt_id schedule_count
          chain3 2 default_opts default_thresholds FULL_SCHEDULE True = Inl OtherException
   \<and> solve_approx_lp_randomized rand_counter ILPSolver_crash solve_r_opt_id
          schedule_count 3 chain3 2 default_opts 5 True = (Inl OtherException, 3)"
proof -
  have h: "solve (ILPSolver_infeasible (lp_relaxation_args chain3 2 default_opts (Some FULL_SCHEDULE)))
      = Inl ValueError"
    "solve (ILPSolver_infeasible (lp_relaxation_args chain3 2 default_opts None)) = Inl ValueError"
    by (simp_all add: ILPSolver_infeasible_def)
  have c: "solve (ILPSolver_crash (lp_relaxation_args chain3 2 default_opts (Some FULL_SCHEDULE)))
      = Inl OtherException"
    "solve (ILPSolver_crash (lp_relaxation_args chain3 2 default_opts None)) = Inl OtherException"
    "OtherException \<noteq> ValueError"
    by (simp_all add: ILPSolver_crash_def)
  have nov: "\<not> float_overflows 2"
    by (simp add: no_overflow_small)
  note T = value_error_reported_infeasible[where I = ILPSolver_infeasible and R = solve_r_opt_id
      and F = schedule_count and g = chain3 and B = 2 and opts = default_opts
      and ths = default_thresholds and imp = FULL_SCHEDULE and n = 1 and n' = 1
      and N = normal_counter and rng = 1 and rand = rand_counter and rng' = 3 and k = 5
      and rr = True and allow = True and e = OtherException, OF nov]
  note V = value_error_reported_infeasible[where I = ILPSolver_crash and R = solve_r_opt_id
      and F = schedule_count and g = chain3 and B = 2 and opts = default_opts
      and ths = default_thresholds and imp = FULL_SCHEDULE and n = 1 and n' = 1
      and N = normal_counter and rng = 1 and rand = rand_counter and rng' = 3 and k = 5
      and rr = True and allow = True and e = OtherException, OF nov]
  from T h have t: "(\<exists>res. solve_approx_lp_deterministic_sweep ILPSolver_infeasible solve_r_opt_id schedule_count
          chain3 2 default_opts default_thresholds FULL_SCHEDULE True = Inr res
        \<and> \<not> feasible res \<and> schedule res = None \<and> schedule_aux_data res = None)"
   "(\<exists>res. solve_approx_lp_deterministic_05_threshold ILPSolver_infeasible solve_r_opt_id
          schedule_count chain3 2 default_opts 1 True = Inr res
        \<and> \<not> feasible res \<and> schedule res = None \<and> schedule_aux_data res = None)"
   "(\<exists>res. fst (solve_approx_lp_deterministic_rand_threshold normal_counter ILPSolver_infeasible
          solve_r_opt_id schedule_count 1 chain3 2 default_opts 1) = Inr res
        \<and> \<not> feasible res \<and> schedule res = None \<and> schedule_aux_data res = None)"
   "(\<exists>res. solve_approx_lp_randomized rand_counter ILPSolver_infeasible solve_r_opt_id
          schedule_count 3 chain3 2 default_opts 5 True = (Inr (res, Some no_stats), 3)
        \<and> \<not> feasible res \<and> schedule res = None \<and> schedule_aux_data res = None)"
    by simp_all
  from V c have v: "solve_approx_lp_deterministic_sweep ILPSolver_crash solve_r_opt_id schedule_count
          chain3 2 default_opts default_thresholds FULL_SCHEDULE True = Inl OtherException"
    "solve_approx_lp_randomized rand_counter ILPSolver_crash solve_r_opt_id
          schedule_count 3 chain3 2 default_opts 5 True = (Inl OtherException, 3)"
    by blast+
  from nov h c t v show ?thesis by blast
qed

section \<open>The single threshold 0.5\<close>

text \<open>
  C9. \<^verbatim>\<open>solve_approx_lp_deterministic_05_threshold\<close> returns exactly what
  \<^verbatim>\<open>solve_approx_lp_deterministic_sweep\<close> returns for \<^verbatim>\<open>thresholds=[0.5]\<close> and the same
  remaining arguments (its \<^verbatim>\<open>n_samples\<close> is ignored). When the relaxation solve is
  reached (\<^verbatim>\<open>int(0.9 * budget)\<close> does not raise) and succeeds, the result is decided by the
  one candidate of threshold 0.5: it is returned, with
  \<open>feasible = True\<close> and the reported threshold 0.5, iff allow-infeasible is set or the
  candidate is within budget; otherwise the result is infeasible and empty.
\<close>

theorem single_threshold_is_sweep:
  "solve_approx_lp_deterministic_05_threshold I R F g B opts n allow =
     solve_approx_lp_deterministic_sweep I R F g B opts [1 / 2] FULL_SCHEDULE allow
   \<and> (\<not> float_overflows B \<longrightarrow>
      solve (I (lp_relaxation_args g B opts (Some FULL_SCHEDULE))) = Inr x \<longrightarrow>
        (\<exists>res. solve_approx_lp_deterministic_05_threshold I R F g B opts n allow = Inr res
          \<and> feasible res =
               (allow \<or> activation_ram (snd (threshold_candidate R F g (sol_s x) (1 / 2))) \<le> B)
          \<and> schedule res =
               (if feasible res then Some (fst (threshold_candidate R F g (sol_s x) (1 / 2)))
                else None)
          \<and> schedule_aux_data res =
               (if feasible res then Some (snd (threshold_candidate R F g (sol_s x) (1 / 2)))
                else None)
          \<and> chosen_threshold (Inr res) = (if feasible res then Some (1 / 2) else None)))"
proof (intro conjI impI)
  show "solve_approx_lp_deterministic_05_threshold I R F g B opts n allow =
     solve_approx_lp_deterministic_sweep I R F g B opts [1 / 2] FULL_SCHEDULE allow"
    by (simp add: solve_approx_lp_deterministic_05_threshold_def)
next
  assume "\<not> float_overflows B"
    and "solve (I (lp_relaxation_args g B opts (Some FULL_SCHEDULE))) = Inr x"
  then show "\<exists>res. solve_approx_lp_deterministic_05_threshold I R F g B opts n allow = Inr res
          \<and> feasible res =
               (allow \<or> activation_ram (snd (threshold_candidate R F g (sol_s x) (1 / 2))) \<le> B)
          \<and> schedule res =
               (if feasible res then Some (fst (threshold_candidate R F g (sol_s x) (1 / 2)))
                else None)
          \<and> schedule_aux_data res =
               (if feasible res then Some (snd (threshold_candidate R F g (sol_s x) (1 / 2)))
                else None)
          \<and> chosen_threshold (Inr res) = (if feasible res then Some (1 / 2) else None)"
    by (cases "F g (R g (ge_threshold (sol_s x) (1 / 2))) (ge_threshold (sol_s x) (1 / 2))")
      (simp add: solve_approx_lp_deterministic_05_threshold_def
        solve_approx_lp_deterministic_sweep_def try_solve_def threshold_candidate_def
        chosen_threshold_def make_ilp_aux_data_def Let_def)
qed

text \<open>The theorem at a run with budget 2, where the candidate of threshold 0.5 is kept.\<close>

theorem single_threshold_is_sweep_witness:
  "\<not> float_overflows 2
   \<and> solve (ILPSolver_ok (lp_relaxation_args chain3 2 default_opts (Some FULL_SCHEDULE)))
      = Inr relaxed_solution
   \<and> solve_approx_lp_deterministic_05_threshold ILPSolver_ok solve_r_opt_id schedule_count chain3 2
        default_opts 7 False =
      solve_approx_lp_deterministic_sweep ILPSolver_ok solve_r_opt_id schedule_count chain3 2
        default_opts [1 / 2] FULL_SCHEDULE False
   \<and> (\<exists>res. solve_approx_lp_deterministic_05_threshold ILPSolver_ok solve_r_opt_id schedule_count
          chain3 2 default_opts 7 False = Inr res
        \<and> feasible res \<and> schedule res = Some [[0, 0, 1]]
        \<and> schedule_aux_data res = Some \<lparr> cpu = 9, activation_ram = 1 \<rparr>
        \<and> chosen_threshold (Inr res) = Some (1 / 2))"
proof -
  have h: "solve (ILPSolver_ok (lp_relaxation_args chain3 2 default_opts (Some FULL_SCHEDULE)))
      = Inr relaxed_solution"
    by (simp add: ILPSolver_ok_def)
  have c: "threshold_candidate solve_r_opt_id schedule_count chain3 (sol_s relaxed_solution) (1 / 2)
      = ([[0, 0, 1]], \<lparr> cpu = 9, activation_ram = 1 \<rparr>)"
    by (simp add: concrete_defs)
  have nov: "\<not> float_overflows 2"
    by (simp add: no_overflow_small)
  note T = single_threshold_is_sweep[where I = ILPSolver_ok and R = solve_r_opt_id
      and F = schedule_count and g = chain3 and B = 2 and opts = default_opts and n = 7
      and allow = False and x = relaxed_solution]
  from T have e: "solve_approx_lp_deterministic_05_threshold ILPSolver_ok solve_r_opt_id
        schedule_count chain3 2 default_opts 7 False =
      solve_approx_lp_deterministic_sweep ILPSolver_ok solve_r_opt_id schedule_count chain3 2
        default_opts [1 / 2] FULL_SCHEDULE False"
    by blast
  from T nov h obtain res where r:
      "solve_approx_lp_deterministic_05_threshold ILPSolver_ok solve_r_opt_id schedule_count
          chain3 2 default_opts 7 False = Inr res"
      "feasible res = (False \<or> activation_ram (snd (threshold_candidate solve_r_opt_id
          schedule_count chain3 (sol_s relaxed_solution) (1 / 2))) \<le> 2)"
      "schedule res = (if feasible res then Some (fst (threshold_candidate solve_r_opt_id
          schedule_count chain3 (sol_s relaxed_solution) (1 / 2))) else None)"
      "schedule_aux_data res = (if feasible res then Some (snd (threshold_candidate solve_r_opt_id
          schedule_count chain3 (sol_s relaxed_solution) (1 / 2))) else None)"
      "chosen_threshold (Inr res) = (if feasible res then Some (1 / 2) else None)"
    by blast
  from r(2) c have f: "feasible res" by simp
  with r c have "schedule res = Some [[0, 0, 1]]"
      "schedule_aux_data res = Some \<lparr> cpu = 9, activation_ram = 1 \<rparr>"
      "chosen_threshold (Inr res) = Some (1 / 2)"
    by simp_all
  with nov h e r(1) f show ?thesis by blast
qed

section \<open>Which candidate the loops keep\<close>

lemma keep_best_from_none_last_min:
  assumes "keep_best B cs None = Some (c, a)"
  shows "\<exists>pre post. cs = pre @ (c, a) # post \<and> activation_ram a \<le> B
         \<and> (\<forall>x \<in> set pre. activation_ram (snd x) \<le> B \<longrightarrow> cpu a \<le> cpu (snd x))
         \<and> (\<forall>x \<in> set post. activation_ram (snd x) \<le> B \<longrightarrow> cpu a < cpu (snd x))"
  using keep_best_last_min[OF assms] by auto

lemma sweep_rounding_last_min:
  assumes "sweep_rounding R F g B False s ths (None, None, None) = (sc, a, Some th)"
  shows "\<exists>pre post. ths = pre @ th # post
          \<and> sc = Some (fst (threshold_candidate R F g s th))
          \<and> a = Some (snd (threshold_candidate R F g s th))
          \<and> activation_ram (snd (threshold_candidate R F g s th)) \<le> B
          \<and> (\<forall>t \<in> set pre. activation_ram (snd (threshold_candidate R F g s t)) \<le> B
                \<longrightarrow> cpu (snd (threshold_candidate R F g s th))
                      \<le> cpu (snd (threshold_candidate R F g s t)))
          \<and> (\<forall>t \<in> set post. activation_ram (snd (threshold_candidate R F g s t)) \<le> B
                \<longrightarrow> cpu (snd (threshold_candidate R F g s th))
                      < cpu (snd (threshold_candidate R F g s t)))"
proof -
  let ?f = "\<lambda>t. ((fst (threshold_candidate R F g s t), t), snd (threshold_candidate R F g s t))"
  from assms obtain sc' a' where kb: "keep_best B (map ?f ths) None = Some ((sc', th), a')"
    and sc: "sc = Some sc'" and a: "a = Some a'"
    by (auto simp: sweep_rounding_from_empty sweep_state_of_def sweep_candidates_def
        split: option.splits)
  from keep_best_from_none_last_min[OF kb] obtain pre post where
    p: "map ?f ths = pre @ ((sc', th), a') # post" "activation_ram a' \<le> B"
      "\<forall>x \<in> set pre. activation_ram (snd x) \<le> B \<longrightarrow> cpu a' \<le> cpu (snd x)"
      "\<forall>x \<in> set post. activation_ram (snd x) \<le> B \<longrightarrow> cpu a' < cpu (snd x)"
    by blast
  from p(1) obtain pre' t post' where
    q: "ths = pre' @ t # post'" "map ?f pre' = pre" "?f t = ((sc', th), a')" "map ?f post' = post"
    by (auto simp: map_eq_append_conv map_eq_Cons_conv)
  from q(3) have t: "t = th" "sc' = fst (threshold_candidate R F g s th)"
      "a' = snd (threshold_candidate R F g s th)"
    by auto
  have "\<forall>u \<in> set pre'. activation_ram (snd (threshold_candidate R F g s u)) \<le> B
          \<longrightarrow> cpu a' \<le> cpu (snd (threshold_candidate R F g s u))"
    using p(3) q(2) by auto
  moreover have "\<forall>u \<in> set post'. activation_ram (snd (threshold_candidate R F g s u)) \<le> B
          \<longrightarrow> cpu a' < cpu (snd (threshold_candidate R F g s u))"
    using p(4) q(4) by auto
  ultimately show ?thesis
    using q(1) t sc a p(2) by (intro exI[of _ pre'] exI[of _ post']) simp
qed

lemma sweep_chosen_threshold_state:
  assumes "\<not> float_overflows B"
    and "solve (I (lp_relaxation_args g B opts (Some imp))) = Inr x"
  shows "\<exists>sc a th. sweep_rounding R F g B allow (sol_s x) ths (None, None, None) = (sc, a, th)
          \<and> (\<exists>res. solve_approx_lp_deterministic_sweep I R F g B opts ths imp allow = Inr res
                \<and> schedule res = sc \<and> schedule_aux_data res = a
                \<and> chosen_threshold (Inr res) = th \<and> feasible res = (a \<noteq> None))"
  using assms
  by (cases "sweep_rounding R F g B allow (sol_s x) ths (None, None, None)")
     (simp add: solve_approx_lp_deterministic_sweep_def try_solve_def chosen_threshold_def
       make_ilp_aux_data_def Let_def)

lemma randomized_best_state:
  assumes "\<not> float_overflows B"
    and "solve (I (lp_relaxation_args g B opts None)) = Inr x"
  shows "\<exists>res. solve_approx_lp_randomized rand I R F rng g B opts k rr =
           (Inr (res, if rr then Some (append_stats B no_stats
                   (round_candidates R F g (sol_s x) (round_draws rand rng (shape (sol_s x)) (nat k))))
                 else None),
            rng_after rand rng (shape (sol_s x)) (nat k))
         \<and> feasible res
         \<and> schedule res = map_option fst (keep_best B
               (round_candidates R F g (sol_s x) (round_draws rand rng (shape (sol_s x)) (nat k))) None)
         \<and> schedule_aux_data res = map_option snd (keep_best B
               (round_candidates R F g (sol_s x) (round_draws rand rng (shape (sol_s x)) (nat k))) None)"
  using assms
  by (cases "keep_best B
               (round_candidates R F g (sol_s x) (round_draws rand rng (shape (sol_s x)) (nat k))) None")
     (auto simp: solve_approx_lp_randomized_def try_solve_def Let_def no_stats_def
       randomized_rounding_from_empty best_solution_of_def)

text \<open>
  C4, as stated, fails. In the sweep over the default thresholds with budget 2, the
  thresholds 0.3 and 0.4 give the same feasible candidate (\<open>cpu\<close> 8, memory 2), the best
  \<open>cpu\<close> among the feasible ones; the reported threshold is 0.4, the later of the two,
  since \<^verbatim>\<open>aux_data_.cpu <= aux_data.cpu\<close> lets an equal candidate replace the best.
\<close>

theorem tie_keeps_later_threshold:
  "chosen_threshold (solve_approx_lp_deterministic_sweep ILPSolver_ok solve_r_opt_id schedule_count
      chain3 2 default_opts default_thresholds FULL_SCHEDULE False) = Some (4 / 10)
   \<and> threshold_candidate solve_r_opt_id schedule_count chain3 (sol_s relaxed_solution) (3 / 10)
       = ([[0, 1, 1]], \<lparr> cpu = 8, activation_ram = 2 \<rparr>)
   \<and> threshold_candidate solve_r_opt_id schedule_count chain3 (sol_s relaxed_solution) (4 / 10)
       = ([[0, 1, 1]], \<lparr> cpu = 8, activation_ram = 2 \<rparr>)
   \<and> default_thresholds = [1 / 10, 2 / 10, 3 / 10] @ (4 / 10) # [5 / 10, 6 / 10, 7 / 10, 8 / 10, 9 / 10]"
  by (simp add: solve_approx_lp_deterministic_sweep_def concrete_defs chosen_threshold_def)

text \<open>
  C4, as the code has it. In the selection rule of the sweep (without allow-infeasible)
  and of the randomized rounding, of two feasible candidates with equal \<open>cpu\<close> the one
  found last is kept: the kept candidate is within budget, its \<open>cpu\<close> is at most that of
  every feasible candidate before it and strictly less than that of every feasible
  candidate after it. So the sweep reports the last threshold of the sequence that
  achieves the best \<open>cpu\<close> (the highest one, for an ascending sweep).
\<close>

theorem last_best_candidate_kept:
  "(solve (I (lp_relaxation_args g B opts (Some imp))) = Inr x \<longrightarrow>
    solve_approx_lp_deterministic_sweep I R F g B opts ths imp False = Inr res \<longrightarrow>
    chosen_threshold (Inr res) = Some th \<longrightarrow>
      (\<exists>pre post. ths = pre @ th # post
          \<and> schedule res = Some (fst (threshold_candidate R F g (sol_s x) th))
          \<and> schedule_aux_data res = Some (snd (threshold_candidate R F g (sol_s x) th))
          \<and> activation_ram (snd (threshold_candidate R F g (sol_s x) th)) \<le> B
          \<and> (\<forall>t \<in> set pre. activation_ram (snd (threshold_candidate R F g (sol_s x) t)) \<le> B
                \<longrightarrow> cpu (snd (threshold_candidate R F g (sol_s x) th))
                      \<le> cpu (snd (threshold_candidate R F g (sol_s x) t)))
          \<and> (\<forall>t \<in> set post. activation_ram (snd (threshold_candidate R F g (sol_s x) t)) \<le> B
                \<longrightarrow> cpu (snd (threshold_candidate R F g (sol_s x) th))
                      < cpu (snd (threshold_candidate R F g (sol_s x) t)))))
   \<and> (solve (I (lp_relaxation_args g B opts None)) = Inr y \<longrightarrow>
      fst (solve_approx_lp_randomized rand I R F rng g B opts k rr) = Inr (res', st) \<longrightarrow>
      schedule_aux_data res' = Some a \<longrightarrow>
      (\<exists>pre post sc.
          round_candidates R F g (sol_s y) (round_draws rand rng (shape (sol_s y)) (nat k))
            = pre @ (sc, a) # post
          \<and> schedule res' = Some sc
          \<and> activation_ram a \<le> B
          \<and> (\<forall>c \<in> set pre. activation_ram (snd c) \<le> B \<longrightarrow> cpu a \<le> cpu (snd c))
          \<and> (\<forall>c \<in> set post. activation_ram (snd c) \<le> B \<longrightarrow> cpu a < cpu (snd c))))"
proof (intro conjI impI)
  assume s: "solve (I (lp_relaxation_args g B opts (Some imp))) = Inr x"
    and r: "solve_approx_lp_deterministic_sweep I R F g B opts ths imp False = Inr res"
    and c: "chosen_threshold (Inr res) = Some th"
  from sweep_chosen_threshold_state[where I = I and g = g and B = B and opts = opts
      and imp = imp and x = x and R = R and F = F and allow = False and ths = ths]
    sweep_returns_no_overflow[OF r] s r c
  obtain sc a where "sweep_rounding R F g B False (sol_s x) ths (None, None, None) = (sc, a, Some th)"
    and "schedule res = sc" and "schedule_aux_data res = a"
    by auto
  with sweep_rounding_last_min[of R F g B "sol_s x" ths sc a th]
  show "\<exists>pre post. ths = pre @ th # post
          \<and> schedule res = Some (fst (threshold_candidate R F g (sol_s x) th))
          \<and> schedule_aux_data res = Some (snd (threshold_candidate R F g (sol_s x) th))
          \<and> activation_ram (snd (threshold_candidate R F g (sol_s x) th)) \<le> B
          \<and> (\<forall>t \<in> set pre. activation_ram (snd (threshold_candidate R F g (sol_s x) t)) \<le> B
                \<longrightarrow> cpu (snd (threshold_candidate R F g (sol_s x) th))
                      \<le> cpu (snd (threshold_candidate R F g (sol_s x) t)))
          \<and> (\<forall>t \<in> set post. activation_ram (snd (threshold_candidate R F g (sol_s x) t)) \<le> B
                \<longrightarrow> cpu (snd (threshold_candidate R F g (sol_s x) th))
                      < cpu (snd (threshold_candidate R F g (sol_s x) t)))"
    by simp
next
  let ?cs = "round_candidates R F g (sol_s y) (round_draws rand rng (shape (sol_s y)) (nat k))"
  assume s: "solve (I (lp_relaxation_args g B opts None)) = Inr y"
    and r: "fst (solve_approx_lp_randomized rand I R F rng g B opts k rr) = Inr (res', st)"
    and a: "schedule_aux_data res' = Some a"
  from randomized_best_state[where I = I and g = g and B = B and opts = opts and x = y
      and rand = rand and R = R and F = F and rng = rng and k = k and rr = rr]
    randomized_returns_no_overflow[OF r] s r
  have sc: "schedule res' = map_option fst (keep_best B ?cs None)"
    and au: "schedule_aux_data res' = map_option snd (keep_best B ?cs None)"
    by auto
  from au a obtain sc' where kb: "keep_best B ?cs None = Some (sc', a)"
    by (cases "keep_best B ?cs None") auto
  from keep_best_from_none_last_min[OF kb] obtain pre post where
    "?cs = pre @ (sc', a) # post" "activation_ram a \<le> B"
    "\<forall>c \<in> set pre. activation_ram (snd c) \<le> B \<longrightarrow> cpu a \<le> cpu (snd c)"
    "\<forall>c \<in> set post. activation_ram (snd c) \<le> B \<longrightarrow> cpu a < cpu (snd c)"
    by blast
  moreover have "schedule res' = Some sc'" using sc kb by simp
  ultimately show "\<exists>pre post sc. ?cs = pre @ (sc, a) # post
          \<and> schedule res' = Some sc
          \<and> activation_ram a \<le> B
          \<and> (\<forall>c \<in> set pre. activation_ram (snd c) \<le> B \<longrightarrow> cpu a \<le> cpu (snd c))
          \<and> (\<forall>c \<in> set post. activation_ram (snd c) \<le> B \<longrightarrow> cpu a < cpu (snd c))"
    by blast
qed

text \<open>
  The theorem at the sweep above and at two rounds of randomized rounding whose
  candidates tie.
\<close>

theorem last_best_candidate_kept_witness:
  "solve (ILPSolver_ok (lp_relaxation_args chain3 2 default_opts (Some FULL_SCHEDULE)))
      = Inr relaxed_solution
   \<and> solve (ILPSolver_ok (lp_relaxation_args chain3 2 default_opts None)) = Inr relaxed_solution
   \<and> solve_approx_lp_deterministic_sweep ILPSolver_ok solve_r_opt_id schedule_count chain3 2
        default_opts default_thresholds FULL_SCHEDULE False = Inr within_budget_result
   \<and> chosen_threshold (Inr within_budget_result) = Some (4 / 10)
   \<and> (\<exists>pre post. default_thresholds = pre @ (4 / 10) # post
         \<and> schedule within_budget_result = Some (fst (threshold_candidate solve_r_opt_id
               schedule_count chain3 (sol_s relaxed_solution) (4 / 10)))
         \<and> schedule_aux_data within_budget_result = Some (snd (threshold_candidate solve_r_opt_id
               schedule_count chain3 (sol_s relaxed_solution) (4 / 10)))
         \<and> activation_ram (snd (threshold_candidate solve_r_opt_id schedule_count chain3
               (sol_s relaxed_solution) (4 / 10))) \<le> 2
         \<and> (\<forall>t \<in> set pre. activation_ram (snd (threshold_candidate solve_r_opt_id schedule_count
                 chain3 (sol_s relaxed_solution) t)) \<le> 2
                \<longrightarrow> cpu (snd (threshold_candidate solve_r_opt_id schedule_count chain3
                           (sol_s relaxed_solution) (4 / 10)))
                      \<le> cpu (snd (threshold_candidate solve_r_opt_id schedule_count chain3
                           (sol_s relaxed_solution) t)))
         \<and> (\<forall>t \<in> set post. activation_ram (snd (threshold_candidate solve_r_opt_id schedule_count
                 chain3 (sol_s relaxed_solution) t)) \<le> 2
                \<longrightarrow> cpu (snd (threshold_candidate solve_r_opt_id schedule_count chain3
                           (sol_s relaxed_solution) (4 / 10)))
                      < cpu (snd (threshold_candidate solve_r_opt_id schedule_count chain3
                           (sol_s relaxed_solution) t))))
   \<and> fst (solve_approx_lp_randomized rand_counter ILPSolver_ok solve_r_opt_id schedule_count 3
        chain3 2 default_opts 2 False) = Inr (rounded_result, None)
   \<and> schedule_aux_data rounded_result = Some \<lparr> cpu = 8, activation_ram = 2 \<rparr>
   \<and> (\<exists>pre post sc.
         round_candidates solve_r_opt_id schedule_count chain3 (sol_s relaxed_solution)
           (round_draws rand_counter 3 (shape (sol_s relaxed_solution)) (nat 2))
           = pre @ (sc, \<lparr> cpu = 8, activation_ram = 2 \<rparr>) # post
         \<and> schedule rounded_result = Some sc
         \<and> activation_ram \<lparr> cpu = 8, activation_ram = 2 \<rparr> \<le> 2
         \<and> (\<forall>c \<in> set pre. activation_ram (snd c) \<le> 2
               \<longrightarrow> cpu \<lparr> cpu = 8, activation_ram = 2 \<rparr> \<le> cpu (snd c))
         \<and> (\<forall>c \<in> set post. activation_ram (snd c) \<le> 2
               \<longrightarrow> cpu \<lparr> cpu = 8, activation_ram = 2 \<rparr> < cpu (snd c)))"
proof -
  have h1: "solve (ILPSolver_ok (lp_relaxation_args chain3 2 default_opts (Some FULL_SCHEDULE)))
      = Inr relaxed_solution"
    by (simp add: ILPSolver_ok_def)
  have h2: "solve (ILPSolver_ok (lp_relaxation_args chain3 2 default_opts None))
      = Inr relaxed_solution"
    by (simp add: ILPSolver_ok_def)
  have r: "solve_approx_lp_deterministic_sweep ILPSolver_ok solve_r_opt_id schedule_count chain3 2
        default_opts default_thresholds FULL_SCHEDULE False = Inr within_budget_result"
    by (simp add: solve_approx_lp_deterministic_sweep_def concrete_defs within_budget_result_def)
  have c: "chosen_threshold (Inr within_budget_result) = Some (4 / 10)"
    by (simp add: chosen_threshold_def within_budget_result_def ilp_aux_of_def)
  have q: "fst (solve_approx_lp_randomized rand_counter ILPSolver_ok solve_r_opt_id schedule_count 3
        chain3 2 default_opts 2 False) = Inr (rounded_result, None)"
    by (simp add: solve_approx_lp_randomized_def concrete_defs rounded_result_def numeral_2_eq_2)
  have a: "schedule_aux_data rounded_result = Some \<lparr> cpu = 8, activation_ram = 2 \<rparr>"
    by (simp add: rounded_result_def)
  note T = last_best_candidate_kept[where I = ILPSolver_ok and R = solve_r_opt_id
      and F = schedule_count and g = chain3 and B = 2 and opts = default_opts
      and ths = default_thresholds and imp = FULL_SCHEDULE and x = relaxed_solution
      and y = relaxed_solution and res = within_budget_result and th = "4 / 10"
      and rand = rand_counter and rng = 3 and k = 2 and rr = False and res' = rounded_result
      and st = None and a = "\<lparr> cpu = 8, activation_ram = 2 \<rparr>"]
  note s1 = T[THEN conjunct1, rule_format, OF h1 r c]
  note s2 = T[THEN conjunct2, rule_format, OF h2 q a]
  show ?thesis
    apply (intro conjI)
    apply (rule h1)
    apply (rule h2)
    apply (rule r)
    apply (rule c)
    apply (rule s1)
    apply (rule q)
    apply (rule a)
    apply (rule s2)
    done
qed

section \<open>The budget given to the relaxation solver\<close>

lemma randomized_stats_in_budget:
  assumes "fst (solve_approx_lp_randomized rand I R F rng g B opts k True) = Inr (res, Some stats)"
  shows "stat_in_budget stats = map (\<lambda>m. m \<le> B) (stat_activation_ram stats)"
proof -
  note no = randomized_returns_no_overflow[OF assms]
  from assms no obtain sol where sol: "try_solve (I (lp_relaxation_args g B opts None)) = Inr sol"
    by (auto simp: solve_approx_lp_randomized_def Let_def split: sum.splits)
  show ?thesis
    using assms no sol
    by (cases sol)
      (auto simp: solve_approx_lp_randomized_def Let_def randomized_rounding_from_empty
        append_stats_def)
qed

lemma nine_tenths_double:
  assumes "n < 2 ^ 47"
  shows "round53 (n * 8106479329266893) div 2 ^ 53 = 9 * n div 10"
proof (cases "n * 8106479329266893 < 2 ^ 53")
  case True
  then have "n = 0 \<or> n = 1" by simp linarith
  then show ?thesis by (auto simp: round53_def)
next
  case False
  define P where "P = n * 8106479329266893"
  define s where "s = bitlen P - 53"
  define X where "X = (2::nat) ^ s"
  define q where "q = P div X"
  define Q where "Q = 9 * n div 10"
  have ge: "2 ^ 53 \<le> P"
    using False by (simp add: P_def)
  have lo: "2 ^ 52 * X \<le> P"
    using round53_large(1)[OF ge] by (simp add: s_def X_def)
  have R: "round53 P = q * X \<or> round53 P = (q + 1) * X"
    using round53_large(2)[OF ge] by (simp add: s_def X_def q_def)
  have Xpos: "0 < X"
    by (simp add: X_def)
  have qlo: "q * X \<le> P"
    by (simp add: q_def)
  have qhi: "P < (q + 1) * X"
    using Xpos dividend_less_div_times[of X P] by (simp add: q_def)
  have P10: "10 * P = 9 * n * 2 ^ 53 + 2 * n"
    by (simp add: P_def)
  have "P < 2 ^ 100"
    using assms by (simp add: P_def)
  with lo have "X < 2 ^ 48" by simp
  then have "s < 48"
    unfolding X_def by (simp only: power_strict_increasing_iff)
  define Y where "Y = (2::nat) ^ (53 - s)"
  have XY: "Y * X = 2 ^ 53"
    using \<open>s < 48\<close> by (simp add: X_def Y_def flip: power_add)
  have Q1: "10 * Q \<le> 9 * n" and Q2: "9 * n < 10 * Q + 10"
    by (simp_all add: Q_def)
  have lowP: "Q * 2 ^ 53 \<le> P"
    using Q1 P10 by simp
  have QT: "Q * Y * X = Q * 2 ^ 53"
    by (simp only: mult.assoc XY)
  with lowP qhi have "Q * Y * X < (q + 1) * X" by linarith
  then have "Q * Y < q + 1" by (simp only: mult_less_cancel2)
  then have "Q * Y \<le> q" by simp
  then have "Q * Y * X \<le> q * X" by (rule mult_le_mono1)
  then have lowq: "Q * 2 ^ 53 \<le> q * X" by (simp only: QT)
  have lowR: "Q * 2 ^ 53 \<le> round53 P"
    using R lowq by (auto simp: algebra_simps)
  have Xn: "20 * X + 2 * n \<le> 2 ^ 53"
    using lo P10 assms by simp
  have "10 * (q * X + 2 * X) \<le> 10 * ((Q + 1) * 2 ^ 53)"
    using qlo P10 Xn Q2 by simp
  then have "(q + 2) * X \<le> (Q + 1) * 2 ^ 53"
    by (simp add: algebra_simps)
  also have QT1: "(Q + 1) * 2 ^ 53 = (Q + 1) * Y * X"
    by (simp only: mult.assoc XY)
  finally have "q + 2 \<le> (Q + 1) * Y"
    using Xpos by (simp only: mult_le_cancel2)
  then have "q + 1 < (Q + 1) * Y" by simp
  then have "(q + 1) * X < (Q + 1) * Y * X"
    using Xpos by (simp only: mult_less_cancel2)
  then have upq: "(q + 1) * X < (Q + 1) * 2 ^ 53"
    by (simp only: QT1)
  have upR: "round53 P < (Q + 1) * 2 ^ 53"
    using R upq by (auto simp: algebra_simps)
  have "round53 P div 2 ^ 53 = Q"
    using lowR upR by (intro div_nat_eqI) (simp_all add: mult.commute)
  then show ?thesis by (simp add: P_def Q_def)
qed

lemma reduced_budget_small:
  assumes "\<bar>B\<bar> < 2 ^ 47"
  shows "reduced_budget B = (if 0 \<le> B then 9 * B div 10 else - (9 * (- B) div 10))"
proof -
  define n where "n = nat \<bar>B\<bar>"
  from assms have n: "n < 2 ^ 47" by (simp add: n_def nat_less_iff)
  then have "n < 2 ^ 53" by simp
  then have "round53 n = n" by (rule round53_small)
  then have r: "reduced_budget B = sgn B * int (9 * n div 10)"
    using nine_tenths_double[OF n] by (simp add: reduced_budget_def n_def)
  show ?thesis
  proof (cases "0 \<le> B")
    case True
    then have "int (9 * n div 10) = 9 * B div 10"
      by (simp add: n_def zdiv_int)
    with True r show ?thesis by (cases "B = 0") (simp_all add: sgn_if)
  next
    case False
    then have "int (9 * n div 10) = 9 * (- B) div 10"
      by (simp add: n_def zdiv_int)
    with False r show ?thesis by (simp add: sgn_if)
  qed
qed

lemma reduced_budget_examples:
  "reduced_budget 0 = 0"
  "reduced_budget 2 = 1"
  "reduced_budget 10 = 9"
  "reduced_budget (- 5) = - 4"
  by (simp_all add: reduced_budget_small)

text \<open>
  For larger budgets the rounding of the product shows: at 1250999896491811 the product
  is rounded up to the integer 1125899906842630 (as \<^verbatim>\<open>int(0.9 * 1250999896491811)\<close> is in
  Python), where nine tenths truncated is 1125899906842629.
\<close>

lemma reduced_budget_rounds_up:
  "reduced_budget 1250999896491811 = 1125899906842630"
  "9 * 1250999896491811 div 10 = (1125899906842629 :: int)"
proof -
  have b: "bitlen 10141204801825888604649207913223 = Suc 103"
    by (rule bitlen_unique) simp_all
  show "reduced_budget 1250999896491811 = 1125899906842630"
    by (simp add: reduced_budget_def round53_def Let_def b)
  show "9 * 1250999896491811 div 10 = (1125899906842629 :: int)"
    by simp
qed

lemma nine_tenths_double_less:
  assumes "0 < n"
  shows "round53 (round53 n * 8106479329266893) div 2 ^ 53 < n"
proof -
  define x where "x = round53 n"
  define y where "y = round53 (x * 8106479329266893)"
  define r where "r = y div 2 ^ 53"
  have A: "4503599627370496 * x \<le> 4503599627370497 * n"
    unfolding x_def by (rule round53_upper)
  have "4503599627370496 * y \<le> 4503599627370497 * (x * 8106479329266893)"
    unfolding y_def by (rule round53_upper)
  then have B: "4503599627370496 * y \<le> 36508337286573015770304307055821 * x"
    by simp
  have "r * 2 ^ 53 \<le> y"
    unfolding r_def by (rule div_times_less_eq_dividend)
  then have C: "9007199254740992 * r \<le> y" by simp
  from A B C assms have "r < n" by linarith
  then show ?thesis by (simp only: r_def y_def x_def)
qed

lemma reduced_budget_smaller:
  "0 < B \<Longrightarrow> reduced_budget B < B"
  "B < 0 \<Longrightarrow> B < reduced_budget B"
proof -
  assume pos: "0 < B"
  then have "0 < nat \<bar>B\<bar>" by simp
  from nine_tenths_double_less[OF this] pos show "reduced_budget B < B"
    by (simp add: reduced_budget_def)
next
  assume neg: "B < 0"
  then have "0 < nat \<bar>B\<bar>" by simp
  from nine_tenths_double_less[OF this] neg show "B < reduced_budget B"
    by (simp add: reduced_budget_def)
qed

lemma sweep_feasible_iff_candidate:
  assumes "solve (I (lp_relaxation_args g B opts (Some imp))) = Inr x"
    and "solve_approx_lp_deterministic_sweep I R F g B opts ths imp False = Inr res"
  shows "feasible res =
           (\<exists>t \<in> set ths. activation_ram (snd (threshold_candidate R F g (sol_s x) t)) \<le> B)"
proof -
  note no = sweep_returns_no_overflow[OF assms(2)]
  from sweep_chosen_threshold_state[where I = I and R = R and F = F and allow = False
      and ths = ths and imp = imp and opts = opts and g = g and B = B and x = x] no assms
  obtain sc a th where st: "sweep_rounding R F g B False (sol_s x) ths (None, None, None) = (sc, a, th)"
    and f: "feasible res = (a \<noteq> None)"
    by auto
  from st have "(a = None) = (keep_best B (sweep_candidates R F g (sol_s x) ths) None = None)"
    by (auto simp: sweep_rounding_from_empty sweep_state_of_def split: option.splits)
  with f show ?thesis
    by (auto simp: keep_best_none sweep_candidates_def)
qed

lemma randomized_schedule_iff_candidate:
  assumes "solve (I (lp_relaxation_args g B opts None)) = Inr y"
    and "fst (solve_approx_lp_randomized rand I R F rng g B opts k rr) = Inr (res, st)"
  shows "(schedule_aux_data res \<noteq> None) =
           (\<exists>c \<in> set (round_candidates R F g (sol_s y)
                         (round_draws rand rng (shape (sol_s y)) (nat k))).
              activation_ram (snd c) \<le> B)"
proof -
  note no = randomized_returns_no_overflow[OF assms(2)]
  from randomized_best_state[where I = I and R = R and F = F and rand = rand and rng = rng
      and k = k and rr = rr and opts = opts and g = g and B = B and x = y] no assms
  have "schedule_aux_data res = map_option snd (keep_best B
               (round_candidates R F g (sol_s y) (round_draws rand rng (shape (sol_s y)) (nat k))) None)"
    by auto
  then have "(schedule_aux_data res = None) = (keep_best B
               (round_candidates R F g (sol_s y) (round_draws rand rng (shape (sol_s y)) (nat k))) None = None)"
    by simp
  then show ?thesis
    by (auto simp: keep_best_none)
qed

text \<open>
  C6. For every budget \<open>B\<close>, the sweep and the randomized rounding construct the
  relaxation solver with the budget \<^verbatim>\<open>int(0.9 * B)\<close>, not with \<open>B\<close>: where the conversion
  of \<open>B\<close> to a float overflows they raise \<^verbatim>\<open>OverflowError\<close> before a solver exists, and
  otherwise the budget argument is \<open>reduced_budget B\<close> and the results depend on the solver
  only through its behaviour at that budget. The number \<open>reduced_budget B\<close> is the double
  product truncated; for \<open>|B| < 2^47\<close> it is nine tenths of \<open>B\<close> truncated towards zero,
  and for every \<open>B\<close> other than 0 it is nearer to 0 than \<open>B\<close>. Candidate feasibility is
  judged against the nominal \<open>B\<close>: without allow-infeasible a result of the sweep is
  feasible exactly when some threshold's candidate has \<open>activation_ram \<le> B\<close>, and it is
  then within \<open>B\<close>; the randomized rounding returns a schedule exactly when some round's
  candidate has \<open>activation_ram \<le> B\<close>, and its per-round \<^verbatim>\<open>in_budget\<close> statistics are
  \<open>activation_ram \<le> B\<close>.
\<close>

theorem relaxation_solved_with_reduced_budget:
  "(float_overflows B \<longrightarrow>
      solve_approx_lp_deterministic_sweep I R F g B opts ths imp allow = Inl OverflowError
      \<and> solve_approx_lp_randomized rand I R F rng g B opts k rr = (Inl OverflowError, rng))
   \<and> arg_budget (lp_relaxation_args g B opts imp') = reduced_budget B
   \<and> ((\<forall>a. arg_budget a = reduced_budget B \<longrightarrow> I a = J a) \<longrightarrow>
        solve_approx_lp_deterministic_sweep I R F g B opts ths imp allow =
          solve_approx_lp_deterministic_sweep J R F g B opts ths imp allow
        \<and> solve_approx_lp_randomized rand I R F rng g B opts k rr =
          solve_approx_lp_randomized rand J R F rng g B opts k rr)
   \<and> (\<bar>B\<bar> < 2 ^ 47 \<longrightarrow>
        reduced_budget B = (if 0 \<le> B then 9 * B div 10 else - (9 * (- B) div 10)))
   \<and> (0 < B \<longrightarrow> reduced_budget B < B)
   \<and> (B < 0 \<longrightarrow> B < reduced_budget B)
   \<and> (solve_approx_lp_deterministic_sweep I R F g B opts ths imp False = Inr res
        \<longrightarrow> feasible res \<longrightarrow> within_budget B res)
   \<and> (solve (I (lp_relaxation_args g B opts (Some imp))) = Inr x
        \<longrightarrow> solve_approx_lp_deterministic_sweep I R F g B opts ths imp False = Inr res
        \<longrightarrow> feasible res =
              (\<exists>t \<in> set ths. activation_ram (snd (threshold_candidate R F g (sol_s x) t)) \<le> B))
   \<and> (fst (solve_approx_lp_randomized rand I R F rng g B opts k True) = Inr (resr, Some stats)
        \<longrightarrow> stat_in_budget stats = map (\<lambda>m. m \<le> B) (stat_activation_ram stats))
   \<and> (solve (I (lp_relaxation_args g B opts None)) = Inr y
        \<longrightarrow> fst (solve_approx_lp_randomized rand I R F rng g B opts k rr) = Inr (resb, st)
        \<longrightarrow> (schedule_aux_data resb \<noteq> None) =
              (\<exists>c \<in> set (round_candidates R F g (sol_s y)
                            (round_draws rand rng (shape (sol_s y)) (nat k))).
                 activation_ram (snd c) \<le> B))"
proof (intro conjI impI)
  assume "float_overflows B"
  then show "solve_approx_lp_deterministic_sweep I R F g B opts ths imp allow = Inl OverflowError"
    and "solve_approx_lp_randomized rand I R F rng g B opts k rr = (Inl OverflowError, rng)"
    by (simp_all add: solve_approx_lp_deterministic_sweep_def solve_approx_lp_randomized_def)
next
  show "arg_budget (lp_relaxation_args g B opts imp') = reduced_budget B"
    by (simp add: lp_relaxation_args_def)
next
  assume h: "\<forall>a. arg_budget a = reduced_budget B \<longrightarrow> I a = J a"
  have "I (lp_relaxation_args g B opts (Some imp)) = J (lp_relaxation_args g B opts (Some imp))"
    using h by (simp add: lp_relaxation_args_def)
  then show "solve_approx_lp_deterministic_sweep I R F g B opts ths imp allow =
          solve_approx_lp_deterministic_sweep J R F g B opts ths imp allow"
    by (simp add: solve_approx_lp_deterministic_sweep_def)
  have "I (lp_relaxation_args g B opts None) = J (lp_relaxation_args g B opts None)"
    using h by (simp add: lp_relaxation_args_def)
  then show "solve_approx_lp_randomized rand I R F rng g B opts k rr =
          solve_approx_lp_randomized rand J R F rng g B opts k rr"
    by (simp add: solve_approx_lp_randomized_def)
next
  assume "\<bar>B\<bar> < 2 ^ 47"
  then show "reduced_budget B = (if 0 \<le> B then 9 * B div 10 else - (9 * (- B) div 10))"
    by (rule reduced_budget_small)
next
  assume "0 < B" then show "reduced_budget B < B" by (rule reduced_budget_smaller)
next
  assume "B < 0" then show "B < reduced_budget B" by (rule reduced_budget_smaller)
next
  assume "solve_approx_lp_deterministic_sweep I R F g B opts ths imp False = Inr res"
    and "feasible res"
  then show "within_budget B res" by (rule sweep_feasible_within_budget)
next
  assume "solve (I (lp_relaxation_args g B opts (Some imp))) = Inr x"
    and "solve_approx_lp_deterministic_sweep I R F g B opts ths imp False = Inr res"
  then show "feasible res =
      (\<exists>t \<in> set ths. activation_ram (snd (threshold_candidate R F g (sol_s x) t)) \<le> B)"
    by (rule sweep_feasible_iff_candidate)
next
  assume "fst (solve_approx_lp_randomized rand I R F rng g B opts k True) = Inr (resr, Some stats)"
  then show "stat_in_budget stats = map (\<lambda>m. m \<le> B) (stat_activation_ram stats)"
    by (rule randomized_stats_in_budget)
next
  assume "solve (I (lp_relaxation_args g B opts None)) = Inr y"
    and "fst (solve_approx_lp_randomized rand I R F rng g B opts k rr) = Inr (resb, st)"
  then show "(schedule_aux_data resb \<noteq> None) =
      (\<exists>c \<in> set (round_candidates R F g (sol_s y) (round_draws rand rng (shape (sol_s y)) (nat k))).
         activation_ram (snd c) \<le> B)"
    by (rule randomized_schedule_iff_candidate)
qed

text \<open>
  The theorem at budget 2, where the solver is given 1 (a solver that succeeds for the
  budget 1 only yields the same results as one that always succeeds), at budget -5, and
  at budget \<open>2^1024\<close>, where both entry points raise.
\<close>

theorem relaxation_solved_with_reduced_budget_witness:
  "float_overflows (2 ^ 1024)
   \<and> solve_approx_lp_deterministic_sweep ILPSolver_ok solve_r_opt_id schedule_count chain3
        (2 ^ 1024) default_opts default_thresholds FULL_SCHEDULE False = Inl OverflowError
   \<and> solve_approx_lp_randomized rand_counter ILPSolver_ok solve_r_opt_id schedule_count 3
        chain3 (2 ^ 1024) default_opts 1 True = (Inl OverflowError, 3)
   \<and> arg_budget (lp_relaxation_args chain3 2 default_opts None) = reduced_budget 2
   \<and> reduced_budget 2 = 1
   \<and> solve_approx_lp_deterministic_sweep ILPSolver_ok solve_r_opt_id schedule_count chain3 2
        default_opts default_thresholds FULL_SCHEDULE False =
      solve_approx_lp_deterministic_sweep ILPSolver_budget_1 solve_r_opt_id schedule_count chain3 2
        default_opts default_thresholds FULL_SCHEDULE False
   \<and> solve_approx_lp_randomized rand_counter ILPSolver_ok solve_r_opt_id schedule_count 3
        chain3 2 default_opts 1 True =
      solve_approx_lp_randomized rand_counter ILPSolver_budget_1 solve_r_opt_id schedule_count 3
        chain3 2 default_opts 1 True
   \<and> reduced_budget 2 < 2
   \<and> - 5 < reduced_budget (- 5)
   \<and> solve_approx_lp_deterministic_sweep ILPSolver_ok solve_r_opt_id schedule_count chain3 2
        default_opts default_thresholds FULL_SCHEDULE False = Inr within_budget_result
   \<and> feasible within_budget_result
   \<and> within_budget 2 within_budget_result
   \<and> solve (ILPSolver_ok (lp_relaxation_args chain3 2 default_opts (Some FULL_SCHEDULE))) =
        Inr relaxed_solution
   \<and> feasible within_budget_result =
        (\<exists>t \<in> set default_thresholds.
           activation_ram (snd (threshold_candidate solve_r_opt_id schedule_count chain3
             (sol_s relaxed_solution) t)) \<le> 2)
   \<and> fst (solve_approx_lp_randomized rand_counter ILPSolver_ok solve_r_opt_id schedule_count 3
        chain3 2 default_opts 1 True) =
      Inr (rounded_result,
           Some \<lparr> stat_cpu = [8], stat_activation_ram = [2], stat_in_budget = [True] \<rparr>)
   \<and> stat_in_budget \<lparr> stat_cpu = [8], stat_activation_ram = [2], stat_in_budget = [True] \<rparr> =
      map (\<lambda>m. m \<le> 2)
        (stat_activation_ram \<lparr> stat_cpu = [8], stat_activation_ram = [2], stat_in_budget = [True] \<rparr>)
   \<and> solve (ILPSolver_ok (lp_relaxation_args chain3 2 default_opts None)) = Inr relaxed_solution
   \<and> (schedule_aux_data rounded_result \<noteq> None) =
        (\<exists>c \<in> set (round_candidates solve_r_opt_id schedule_count chain3 (sol_s relaxed_solution)
                      (round_draws rand_counter 3 (shape (sol_s relaxed_solution)) (nat 1))).
           activation_ram (snd c) \<le> 2)"
proof -
  have ov: "float_overflows (2 ^ 1024)"
    by (rule float_overflows_power) simp
  have small: "\<bar>2 :: int\<bar> < 2 ^ 47" and pos: "(0 :: int) < 2" and neg: "(- 5 :: int) < 0"
    by simp_all
  have agree: "\<forall>a. arg_budget a = reduced_budget 2 \<longrightarrow> ILPSolver_ok a = ILPSolver_budget_1 a"
    by (simp add: reduced_budget_small ILPSolver_budget_1_def)
  have r: "solve_approx_lp_deterministic_sweep ILPSolver_ok solve_r_opt_id schedule_count chain3 2
        default_opts default_thresholds FULL_SCHEDULE False = Inr within_budget_result"
    by (simp add: solve_approx_lp_deterministic_sweep_def concrete_defs within_budget_result_def)
  have f: "feasible within_budget_result"
    by (simp add: within_budget_result_def)
  have sx: "solve (ILPSolver_ok (lp_relaxation_args chain3 2 default_opts (Some FULL_SCHEDULE))) =
        Inr relaxed_solution"
    and sy: "solve (ILPSolver_ok (lp_relaxation_args chain3 2 default_opts None)) =
        Inr relaxed_solution"
    by (simp_all add: ILPSolver_ok_def)
  have q: "fst (solve_approx_lp_randomized rand_counter ILPSolver_ok solve_r_opt_id schedule_count 3
        chain3 2 default_opts 1 True) =
      Inr (rounded_result,
           Some \<lparr> stat_cpu = [8], stat_activation_ram = [2], stat_in_budget = [True] \<rparr>)"
    by (simp add: solve_approx_lp_randomized_def concrete_defs rounded_result_def)
  note O = relaxation_solved_with_reduced_budget[where g = chain3 and B = "2 ^ 1024"
      and opts = default_opts and I = ILPSolver_ok
      and R = solve_r_opt_id and F = schedule_count and ths = default_thresholds
      and imp = FULL_SCHEDULE and allow = False and rand = rand_counter and rng = 3 and k = 1
      and rr = True, THEN conjunct1, THEN mp, OF ov]
  note N = relaxation_solved_with_reduced_budget[where B = "- 5", THEN conjunct2, THEN conjunct2,
      THEN conjunct2, THEN conjunct2, THEN conjunct2, THEN conjunct1, THEN mp, OF neg]
  note T = relaxation_solved_with_reduced_budget[where g = chain3 and B = 2
      and opts = default_opts and imp' = None and I = ILPSolver_ok and J = ILPSolver_budget_1
      and R = solve_r_opt_id and F = schedule_count and ths = default_thresholds
      and imp = FULL_SCHEDULE and allow = False and rand = rand_counter and rng = 3 and k = 1
      and rr = True and res = within_budget_result and x = relaxed_solution
      and resr = rounded_result
      and stats = "\<lparr> stat_cpu = [8], stat_activation_ram = [2], stat_in_budget = [True] \<rparr>"
      and y = relaxed_solution and resb = rounded_result
      and st = "Some \<lparr> stat_cpu = [8], stat_activation_ram = [2], stat_in_budget = [True] \<rparr>",
      THEN conjunct2]
  note c2 = T[THEN conjunct1]
  note T3 = T[THEN conjunct2]
  note c3 = T3[THEN conjunct1, THEN mp, OF agree]
  note T4 = T3[THEN conjunct2]
  from T4[THEN conjunct1, THEN mp, OF small] have c4: "reduced_budget 2 = 1" by simp
  note T5 = T4[THEN conjunct2]
  note c5 = T5[THEN conjunct1, THEN mp, OF pos]
  note T7 = T5[THEN conjunct2, THEN conjunct2]
  note c7 = T7[THEN conjunct1, rule_format, OF r f]
  note T8 = T7[THEN conjunct2]
  note c8 = T8[THEN conjunct1, THEN mp, OF sx, THEN mp, OF r]
  note T9 = T8[THEN conjunct2]
  note c9 = T9[THEN conjunct1, THEN mp, OF q]
  note c10 = T9[THEN conjunct2, THEN mp, OF sy, THEN mp, OF q]
  show ?thesis
    apply (intro conjI)
    apply (rule ov)
    apply (rule O[THEN conjunct1])
    apply (rule O[THEN conjunct2])
    apply (rule c2)
    apply (rule c4)
    apply (rule c3[THEN conjunct1])
    apply (rule c3[THEN conjunct2])
    apply (rule c5)
    apply (rule N)
    apply (rule r)
    apply (rule f)
    apply (rule c7)
    apply (rule sx)
    apply (rule c8)
    apply (rule q)
    apply (rule c9)
    apply (rule sy)
    apply (rule c10)
    done
qed

section \<open>The random source\<close>

text \<open>
  C8, as stated, fails. The randomized entry points have no seed or generator argument:
  they draw from the module-level generator \<^verbatim>\<open>np.random\<close>. Two runs of
  \<^verbatim>\<open>solve_approx_lp_randomized\<close> with identical arguments (graph, budget, \<^verbatim>\<open>seed_s\<close>, options,
  round count) give different results when that ambient generator is in different states.
\<close>

theorem ambient_generator_state_changes_result:
  "fst (solve_approx_lp_randomized rand_counter ILPSolver_ok solve_r_opt_id schedule_count 0
          chain3 2 default_opts 1 True) \<noteq>
   fst (solve_approx_lp_randomized rand_counter ILPSolver_ok solve_r_opt_id schedule_count 3
          chain3 2 default_opts 1 True)"
  by (simp add: solve_approx_lp_randomized_def concrete_defs)

text \<open>
  C8, as the code has it. The results depend on the ambient generator only through its
  draws: two runs of the randomized rounding with identical graph, budget, options and
  round count whose generators yield the same \<^verbatim>\<open>num_rounds\<close> uniform draws (as two runs
  started from the same generator state do) return the same best candidate and the same
  per-round statistics; two runs of the random-threshold sweep whose generators yield the
  same \<^verbatim>\<open>n_samples\<close> clamped normal draws return the same result.
\<close>

theorem same_draws_same_result:
  "((\<forall>sh. round_draws rand rng sh (nat k) = round_draws rand' rng' sh (nat k)) \<longrightarrow>
      fst (solve_approx_lp_randomized rand I R F rng g B opts k rr) =
      fst (solve_approx_lp_randomized rand' I R F rng' g B opts k rr))
   \<and> (fst (draw_thresholds N r (nat n)) = fst (draw_thresholds N' r' (nat n)) \<longrightarrow>
      fst (solve_approx_lp_deterministic_rand_threshold N I R F r g B opts n) =
      fst (solve_approx_lp_deterministic_rand_threshold N' I R F r' g B opts n))"
proof (intro conjI impI)
  assume h: "\<forall>sh. round_draws rand rng sh (nat k) = round_draws rand' rng' sh (nat k)"
  show "fst (solve_approx_lp_randomized rand I R F rng g B opts k rr) =
      fst (solve_approx_lp_randomized rand' I R F rng' g B opts k rr)"
  proof (cases "try_solve (I (lp_relaxation_args g B opts None))")
    case (Inl e)
    then show ?thesis by (simp add: solve_approx_lp_randomized_def)
  next
    case (Inr sol)
    show ?thesis
    proof (cases sol)
      case None
      with Inr show ?thesis by (simp add: solve_approx_lp_randomized_def Let_def)
    next
      case (Some x)
      from h have "round_draws rand rng (shape (sol_s x)) (nat k) =
          round_draws rand' rng' (shape (sol_s x)) (nat k)"
        by blast
      with Inr Some show ?thesis
        by (simp add: solve_approx_lp_randomized_def Let_def randomized_rounding_from_empty)
    qed
  qed
next
  assume "fst (draw_thresholds N r (nat n)) = fst (draw_thresholds N' r' (nat n))"
  then show "fst (solve_approx_lp_deterministic_rand_threshold N I R F r g B opts n) =
      fst (solve_approx_lp_deterministic_rand_threshold N' I R F r' g B opts n)"
    by (simp add: solve_approx_lp_deterministic_rand_threshold_def case_prod_beta)
qed

text \<open>
  The theorem at two generator states that differ and yet give the same draws (the
  counter generators repeat with period 10, and the normal draws 1.0 and 1.5 are both
  clamped to 1).
\<close>

theorem same_draws_same_result_witness:
  "fst (solve_approx_lp_randomized rand_counter ILPSolver_ok solve_r_opt_id schedule_count 3
          chain3 2 default_opts 2 True) =
   fst (solve_approx_lp_randomized rand_counter ILPSolver_ok solve_r_opt_id schedule_count 13
          chain3 2 default_opts 2 True)
   \<and> fst (draw_thresholds normal_counter 2 (nat 1)) = fst (draw_thresholds normal_counter 3 (nat 1))
   \<and> fst (solve_approx_lp_deterministic_rand_threshold normal_counter ILPSolver_ok solve_r_opt_id
          schedule_count 2 chain3 2 default_opts 1) =
     fst (solve_approx_lp_deterministic_rand_threshold normal_counter ILPSolver_ok solve_r_opt_id
          schedule_count 3 chain3 2 default_opts 1)"
proof -
  have d: "\<forall>sh. round_draws rand_counter 3 sh (nat 2) = round_draws rand_counter 13 sh (nat 2)"
    by (simp add: rand_counter_def numeral_2_eq_2)
  have t: "fst (draw_thresholds normal_counter 2 (nat 1)) = fst (draw_thresholds normal_counter 3 (nat 1))"
    by (simp add: normal_counter_def)
  note T = same_draws_same_result[where rand = rand_counter and rand' = rand_counter
      and rng = 3 and rng' = 13 and k = 2 and I = ILPSolver_ok and R = solve_r_opt_id
      and F = schedule_count and g = chain3 and B = 2 and opts = default_opts and rr = True
      and N = normal_counter and N' = normal_counter and r = 2 and r' = 3 and n = 1]
  note c1 = T[THEN conjunct1, THEN mp, OF d]
  note c2 = T[THEN conjunct2, rule_format, OF t]
  show ?thesis
    apply (intro conjI)
    apply (rule c1)
    apply (rule t)
    apply (rule c2)
    done
qed

section \<open>The square-root heuristic\<close>

lemma isqrt_search_le: "isqrt_search n k \<le> k"
  by (induction k) auto

lemma isqrt_search_sq: "isqrt_search n k * isqrt_search n k \<le> n"
  by (induction k) auto

lemma isqrt_search_max: "j \<le> k \<Longrightarrow> j * j \<le> n \<Longrightarrow> j \<le> isqrt_search n k"
proof (induction k)
  case 0
  then show ?case by simp
next
  case (Suc k)
  show ?case
  proof (cases "Suc k * Suc k \<le> n")
    case True
    with Suc.prems show ?thesis by simp
  next
    case False
    with Suc.prems have "j \<noteq> Suc k" by auto
    with Suc.prems have "j \<le> k" by simp
    with Suc.IH Suc.prems False show ?thesis by simp
  qed
qed

lemma isqrt_bounds:
  "isqrt n * isqrt n \<le> n"
  "n < Suc (isqrt n) * Suc (isqrt n)"
proof -
  show "isqrt n * isqrt n \<le> n"
    by (simp add: isqrt_def isqrt_search_sq)
  show "n < Suc (isqrt n) * Suc (isqrt n)"
  proof (rule ccontr)
    let ?r = "isqrt n"
    assume "\<not> n < Suc ?r * Suc ?r"
    then have sq: "Suc ?r * Suc ?r \<le> n" by simp
    have "Suc ?r \<le> Suc ?r * Suc ?r" by simp
    from this sq have "Suc ?r \<le> n" by (rule le_trans)
    from isqrt_search_max[OF this sq] show False
      by (simp add: isqrt_def)
  qed
qed

lemma isqrt_pos: "0 < n \<Longrightarrow> 0 < isqrt n"
  using isqrt_search_max[of 1 n n] by (simp add: isqrt_def)

lemma isqrt_floor: "isqrt n = nat \<lfloor>sqrt (real n)\<rfloor>"
proof -
  let ?r = "isqrt n"
  have "real ?r * real ?r \<le> real n"
    using isqrt_bounds(1)[of n] by (metis of_nat_le_iff of_nat_mult)
  then have lo: "real ?r \<le> sqrt (real n)"
    by (simp add: real_le_rsqrt power2_eq_square)
  have "real n < real (Suc ?r) * real (Suc ?r)"
    using isqrt_bounds(2)[of n] by (metis of_nat_less_iff of_nat_mult)
  then have hi: "sqrt (real n) < real (Suc ?r)"
    by (simp add: real_less_lsqrt power2_eq_square)
  have "\<lfloor>sqrt (real n)\<rfloor> = int ?r"
    using lo hi by (simp add: floor_eq_iff)
  then show ?thesis by simp
qed

lemma filter_enumerate_nth:
  "map snd (filter (\<lambda>(i, u). P i) (enumerate n xs)) =
     map (\<lambda>i. xs ! (i - n)) (filter P [n..<n + length xs])"
proof (induction xs arbitrary: n)
  case Nil
  then show ?case by simp
next
  case (Cons x xs)
  have upt: "[n..<n + length (x # xs)] = n # [Suc n..<Suc n + length xs]"
    by (subst upt_rec) simp
  have shift: "map (\<lambda>i. (x # xs) ! (i - n)) (filter P [Suc n..<Suc n + length xs]) =
      map (\<lambda>i. xs ! (i - Suc n)) (filter P [Suc n..<Suc n + length xs])"
  proof (rule map_cong[OF refl])
    fix i
    assume "i \<in> set (filter P [Suc n..<Suc n + length xs])"
    then have "Suc n \<le> i" by (simp del: upt_Suc)
    then have "i - n = Suc (i - Suc n)" by arith
    then show "(x # xs) ! (i - n) = xs ! (i - Suc n)" by simp
  qed
  show ?case
    unfolding upt using Cons.IH[of "Suc n"] shift by (simp del: upt_Suc)
qed

lemma filter_multiples:
  assumes "0 < k"
  shows "filter (\<lambda>i. (i + 1) mod k = 0) [0..<m] = map (\<lambda>j. j * k - 1) [1..<m div k + 1]"
proof (induction m)
  case 0
  then show ?case by simp
next
  case (Suc m)
  show ?case
  proof (cases "Suc m mod k = 0")
    case True
    then have d: "Suc m div k = Suc (m div k)"
      using assms by (auto simp: div_Suc mod_Suc split: if_splits)
    have "Suc m div k * k + Suc m mod k = Suc m" by (rule div_mult_mod_eq)
    with True d have e: "Suc (m div k) * k = Suc m" by simp
    then have e': "k + m div k * k = Suc m" by simp
    show ?thesis using True Suc.IH d e' by simp
  next
    case False
    then have d: "Suc m div k = m div k"
      using assms by (auto simp: div_Suc mod_Suc split: if_splits)
    show ?thesis using False Suc.IH d by simp
  qed
qed

lemma distinct_nth_positions:
  "distinct C \<Longrightarrow> distinct js \<Longrightarrow> set js \<subseteq> {..<length C} \<Longrightarrow> distinct (map ((!) C) js)"
proof -
  assume d: "distinct C" and j: "distinct js" and s: "set js \<subseteq> {..<length C}"
  have "inj_on ((!) C) (set js)"
  proof (rule inj_onI)
    fix x y
    assume "x \<in> set js" "y \<in> set js" and e: "C ! x = C ! y"
    with s have "x < length C" "y < length C" by auto
    with d e show "x = y" by (simp add: nth_eq_iff_index_eq)
  qed
  with j show ?thesis by (simp add: distinct_map)
qed

lemma chen_sqrtn_checkpoints_positions:
  assumes "C = (if use_actuation_points then articulation_points g else v g)"
  shows "chen_sqrtn_checkpoints g use_actuation_points =
           map ((!) C) (filter (\<lambda>i. (i + 1) mod int_math_sqrt (length C) = 0) [0..<length C])"
  using assms filter_enumerate_nth[of "\<lambda>i. (i + 1) mod int_math_sqrt (length C) = 0" 0 C]
  by (simp add: chen_sqrtn_checkpoints_def Let_def)

lemma isqrt_unique:
  assumes "r * r \<le> n" and "n < Suc r * Suc r"
  shows "isqrt n = r"
proof (rule ccontr)
  let ?s = "isqrt n"
  assume "?s \<noteq> r"
  then consider "?s < r" | "r < ?s" by linarith
  then show False
  proof cases
    case 1
    then have "Suc ?s \<le> r" by simp
    then have "Suc ?s * Suc ?s \<le> r * r" by (intro mult_le_mono)
    with assms(1) isqrt_bounds(2)[of n] show False by linarith
  next
    case 2
    then have "Suc r \<le> ?s" by simp
    then have "Suc r * Suc r \<le> ?s * ?s" by (intro mult_le_mono)
    with assms(2) isqrt_bounds(1)[of n] show False by linarith
  qed
qed

lemma square_less_imp_less_nat: "a * a < b * b \<Longrightarrow> a < (b::nat)"
  by (rule ccontr) (metis leD mult_le_mono not_le)

lemma int_math_sqrt_exact:
  assumes "n < 2 ^ 52"
  shows "int_math_sqrt n = isqrt n"
proof (cases "n = 0")
  case True
  have "isqrt 0 = 0" by (simp add: isqrt_def)
  then show ?thesis
    using True by (simp add: int_math_sqrt_def round53_def bitlen.simps[of 0])
next
  case False
  define m where "m = isqrt n"
  define X where "X = (2::nat) ^ (53 - bitlen m)"
  define P where "P = n * (X * X)"
  define t where "t = isqrt P"
  define Y where "Y = (if P \<le> t * t + t then t else t + 1)"
  from assms have x: "round53 n = n" by (simp add: round53_def)
  have four: "(4::nat) ^ (53 - bitlen m) = X * X"
    unfolding X_def by (simp add: power_mult_distrib[symmetric])
  have val: "int_math_sqrt n = Y div X"
    by (simp add: int_math_sqrt_def Let_def x m_def[symmetric] four P_def[symmetric]
        t_def[symmetric] Y_def X_def[symmetric])
  have mlo: "m * m \<le> n" and mhi: "n < Suc m * Suc m"
    unfolding m_def by (rule isqrt_bounds)+
  from False have mpos: "0 < m" unfolding m_def by (simp add: isqrt_pos)
  then have mnz: "m \<noteq> 0" by simp
  from bitlen_bounds[OF mnz] have blo: "2 ^ (bitlen m - 1) \<le> m" and bhi: "m < 2 ^ bitlen m"
    by auto
  have "m * m < 2 ^ 26 * 2 ^ 26"
    using mlo assms by simp
  then have "m < 2 ^ 26" by (rule square_less_imp_less_nat)
  with blo have "(2::nat) ^ (bitlen m - 1) < 2 ^ 26" by (rule le_less_trans)
  then have "bitlen m - 1 < 26" by (simp only: power_strict_increasing_iff)
  then have "bitlen m \<le> 53 - bitlen m" by simp
  then have "(2::nat) ^ bitlen m \<le> X"
    unfolding X_def by (intro power_increasing) simp_all
  with bhi have sm: "Suc m \<le> X" by simp
  have Xpos: "0 < X" unfolding X_def by simp
  have tlo: "t * t \<le> P" and thi: "P < Suc t * Suc t"
    unfolding t_def by (rule isqrt_bounds)+
  define M where "M = Suc m * X"
  have "(m * X) * (m * X) = (m * m) * (X * X)" by (simp add: algebra_simps)
  also have "\<dots> \<le> P" unfolding P_def using mlo by (intro mult_le_mono1)
  finally have "(m * X) * (m * X) < Suc t * Suc t" using thi by (rule le_less_trans)
  then have "m * X < Suc t" by (rule square_less_imp_less_nat)
  then have lower: "m * X \<le> t" by simp
  from mhi have "Suc n \<le> Suc m * Suc m" by simp
  then have "Suc n * (X * X) \<le> (Suc m * Suc m) * (X * X)" by (intro mult_le_mono1)
  also have "\<dots> = M * M" unfolding M_def by (simp add: algebra_simps)
  finally have gap: "P + X * X \<le> M * M" unfolding P_def by simp
  from Xpos have "0 < X * X" by simp
  with gap have "P < M * M" by linarith
  with tlo have "t * t < M * M" by (rule le_less_trans)
  then have tM: "t < M" by (rule square_less_imp_less_nat)
  have MX: "M \<le> X * X" unfolding M_def using sm by (intro mult_le_mono1)
  have upper: "Y < M"
  proof (cases "P \<le> t * t + t")
    case True
    with tM show ?thesis by (simp add: Y_def)
  next
    case False
    have "Suc t \<noteq> M"
    proof
      assume e: "Suc t = M"
      have "M * M = t * t + t + Suc t" unfolding e[symmetric] by simp
      with gap MX e have "P \<le> t * t + t" by linarith
      with False show False by simp
    qed
    with tM have "Suc t < M" by simp
    with False show ?thesis by (simp add: Y_def)
  qed
  have "t \<le> Y" by (simp add: Y_def)
  with lower have lowerY: "X * m \<le> Y" by (simp add: mult.commute)
  from upper have upperY: "Y < X * Suc m" unfolding M_def by (simp only: mult.commute)
  from lowerY upperY have "Y div X = m" by (rule div_nat_eqI)
  with val show ?thesis by (simp only: m_def)
qed

lemma int_math_sqrt_at_squares:
  "int_math_sqrt 1 = 1" "int_math_sqrt 4 = 2" "int_math_sqrt 9 = 3" "int_math_sqrt 16 = 4"
  "int_math_sqrt 100 = 10"
proof -
  have "isqrt 1 = 1" "isqrt 4 = 2" "isqrt 9 = 3" "isqrt 16 = 4" "isqrt 100 = 10"
    by (rule isqrt_unique; simp)+
  then show "int_math_sqrt 1 = 1" "int_math_sqrt 4 = 2" "int_math_sqrt 9 = 3"
      "int_math_sqrt 16 = 4" "int_math_sqrt 100 = 10"
    by (simp_all add: int_math_sqrt_exact)
qed

text \<open>
  Above the bound of \<open>int_math_sqrt_exact\<close> the rounded root can exceed the integer
  square root: at \<open>(2^26 + 1)^2 - 1\<close> it is \<open>2^26 + 1\<close>, as
  \<^verbatim>\<open>int(math.sqrt(4503599761588224))\<close> is in Python.
\<close>

lemma int_math_sqrt_above_2_52:
  "int_math_sqrt 4503599761588224 = 67108865"
  "isqrt 4503599761588224 = 67108864"
proof -
  show r: "isqrt 4503599761588224 = 67108864"
    by (rule isqrt_unique; simp)
  have b: "bitlen 67108864 = Suc 26"
    by (rule bitlen_unique) simp_all
  have t: "isqrt 20282410208114580231261838639104 = 4503599694479359"
    by (rule isqrt_unique; simp)
  show "int_math_sqrt 4503599761588224 = 67108865"
    by (simp add: int_math_sqrt_def round53_def Let_def r b t)
qed

text \<open>
  C7. For every eligible vertex list \<open>C\<close> of size \<open>m \<ge> 1\<close> (below \<open>2^52\<close>, where the double
  arithmetic of \<^verbatim>\<open>int(math.sqrt(m))\<close> is exact; a list of \<open>2^52\<close> entries does not fit any
  memory), with \<open>k = \<lfloor>sqrt m\<rfloor>\<close>, \<^verbatim>\<open>solve_chen_sqrtn\<close> selects the eligible vertices at the
  1-indexed positions \<open>k, 2k, 3k, \<dots>\<close>, so the checkpoint list has \<open>m div k\<close> entries; when
  the eligible vertices are distinct, as the vertices of a graph are, the checkpoint set
  has \<open>m div k\<close> elements. The result of \<^verbatim>\<open>solve_chen_sqrtn\<close> is the schedule that the
  collaborators build from exactly this checkpoint set.
\<close>

theorem sqrtn_selects_every_kth:
  assumes "C = (if use_actuation_points then articulation_points g else v g)"
    and "1 \<le> length C"
    and "length C < 2 ^ 52"
    and "k = int_math_sqrt (length C)"
  shows "k = nat \<lfloor>sqrt (real (length C))\<rfloor>
       \<and> 1 \<le> k
       \<and> chen_sqrtn_checkpoints g use_actuation_points =
           map (\<lambda>j. C ! (j * k - 1)) [1..<length C div k + 1]
       \<and> length (chen_sqrtn_checkpoints g use_actuation_points) = length C div k
       \<and> (distinct C \<longrightarrow>
            card (set (chen_sqrtn_checkpoints g use_actuation_points)) = length C div k)
       \<and> solve_chen_sqrtn gen_s_matrix_fixed_checkpoints solve_r_opt schedule_from_rs elapsed
             g use_actuation_points =
           (let S = gen_s_matrix_fixed_checkpoints g
                      (set (map (\<lambda>j. C ! (j * k - 1)) [1..<length C div k + 1]));
                R = solve_r_opt g S
            in \<lparr> solve_strategy = (if use_actuation_points then CHEN_SQRTN else CHEN_SQRTN_NOAP),
                 solver_budget = 0,
                 feasible = True,
                 schedule = Some (fst (schedule_from_rs g R S)),
                 schedule_aux_data = Some (snd (schedule_from_rs g R S)),
                 solve_time_s = Some elapsed,
                 ilp_aux_data = None \<rparr>)"
proof -
  have exact: "k = isqrt (length C)"
    using assms(3,4) by (simp add: int_math_sqrt_exact)
  then have floor: "k = nat \<lfloor>sqrt (real (length C))\<rfloor>"
    by (simp add: isqrt_floor)
  from assms(2) have "0 < length C" by (cases C) simp_all
  from isqrt_pos[OF this] exact have pos: "0 < k" by simp
  have sel: "chen_sqrtn_checkpoints g use_actuation_points =
      map ((!) C) (filter (\<lambda>i. (i + 1) mod k = 0) [0..<length C])"
    using chen_sqrtn_checkpoints_positions[OF assms(1)] assms(4) by simp
  then have nth: "chen_sqrtn_checkpoints g use_actuation_points =
           map (\<lambda>j. C ! (j * k - 1)) [1..<length C div k + 1]"
    by (simp only: filter_multiples[OF pos] map_map comp_def)
  then have len: "length (chen_sqrtn_checkpoints g use_actuation_points) = length C div k"
    by simp
  have card: "card (set (chen_sqrtn_checkpoints g use_actuation_points)) = length C div k"
    if "distinct C"
  proof -
    have "distinct (map ((!) C) (filter (\<lambda>i. (i + 1) mod k = 0) [0..<length C]))"
      using that by (intro distinct_nth_positions) auto
    then have "distinct (chen_sqrtn_checkpoints g use_actuation_points)"
      using sel by simp
    then show ?thesis using len by (simp add: distinct_card)
  qed
  have entry: "solve_chen_sqrtn gen_s_matrix_fixed_checkpoints solve_r_opt schedule_from_rs elapsed
             g use_actuation_points =
           (let S = gen_s_matrix_fixed_checkpoints g
                      (set (map (\<lambda>j. C ! (j * k - 1)) [1..<length C div k + 1]));
                R = solve_r_opt g S
            in \<lparr> solve_strategy = (if use_actuation_points then CHEN_SQRTN else CHEN_SQRTN_NOAP),
                 solver_budget = 0,
                 feasible = True,
                 schedule = Some (fst (schedule_from_rs g R S)),
                 schedule_aux_data = Some (snd (schedule_from_rs g R S)),
                 solve_time_s = Some elapsed,
                 ilp_aux_data = None \<rparr>)"
    unfolding solve_chen_sqrtn_def nth by (simp add: Let_def split: prod.splits)
  from pos have "1 \<le> k" by simp
  with floor nth len card entry show ?thesis by blast
qed

text \<open>
  The theorem at the chains of 1, 4, 9, 16 and 100 vertices: 1, 2, 3, 4 and 10
  checkpoints; on the chain of 9 vertices they are the vertices 2, 5 and 8, and
  \<^verbatim>\<open>solve_chen_sqrtn\<close> hands exactly these to \<^verbatim>\<open>gen_s_matrix_fixed_checkpoints\<close>.
\<close>

theorem sqrtn_selects_every_kth_witness:
  "length (chen_sqrtn_checkpoints (unit_chain 1) False) = 1
   \<and> length (chen_sqrtn_checkpoints (unit_chain 4) False) = 2
   \<and> length (chen_sqrtn_checkpoints (unit_chain 9) False) = 3
   \<and> length (chen_sqrtn_checkpoints (unit_chain 16) False) = 4
   \<and> length (chen_sqrtn_checkpoints (unit_chain 100) False) = 10
   \<and> card (set (chen_sqrtn_checkpoints (unit_chain 100) False)) = 10
   \<and> chen_sqrtn_checkpoints (unit_chain 9) False = [2, 5, 8]
   \<and> solve_chen_sqrtn gen_s_checkpoints solve_r_opt_id schedule_count 0 (unit_chain 9) False =
        sqrtn_chain9_result"
proof -
  have T: "length (chen_sqrtn_checkpoints (unit_chain m) False) = m div int_math_sqrt m
      \<and> card (set (chen_sqrtn_checkpoints (unit_chain m) False)) = m div int_math_sqrt m
      \<and> chen_sqrtn_checkpoints (unit_chain m) False =
           map (\<lambda>j. [0..<m] ! (j * int_math_sqrt m - 1)) [1..<m div int_math_sqrt m + 1]
      \<and> solve_chen_sqrtn gen_s_checkpoints solve_r_opt_id schedule_count 0 (unit_chain m) False =
           (let S = gen_s_checkpoints (unit_chain m)
                      (set (map (\<lambda>j. [0..<m] ! (j * int_math_sqrt m - 1))
                             [1..<m div int_math_sqrt m + 1]));
                R = solve_r_opt_id (unit_chain m) S
            in \<lparr> solve_strategy = (if False then CHEN_SQRTN else CHEN_SQRTN_NOAP),
                 solver_budget = 0,
                 feasible = True,
                 schedule = Some (fst (schedule_count (unit_chain m) R S)),
                 schedule_aux_data = Some (snd (schedule_count (unit_chain m) R S)),
                 solve_time_s = Some 0,
                 ilp_aux_data = None \<rparr>)"
    if "1 \<le> m" and "m < 2 ^ 52" for m
  proof -
    have a: "[0..<m] = (if False then articulation_points (unit_chain m) else v (unit_chain m))"
      by (simp add: unit_chain_def)
    have b: "1 \<le> length [0..<m]"
      using that by simp
    have b': "length [0..<m] < 2 ^ 52"
      using that by simp
    have c: "int_math_sqrt m = int_math_sqrt (length [0..<m])"
      by simp
    note S = sqrtn_selects_every_kth[OF a b b' c, unfolded length_upt diff_zero,
        where gen_s_matrix_fixed_checkpoints = gen_s_checkpoints and solve_r_opt = solve_r_opt_id
          and schedule_from_rs = schedule_count and elapsed = 0]
    have "distinct [0..<m]" by simp
    with S show ?thesis by blast
  qed
  have d: "(1::nat) div int_math_sqrt 1 = 1" "(4::nat) div int_math_sqrt 4 = 2"
      "(9::nat) div int_math_sqrt 9 = 3" "(16::nat) div int_math_sqrt 16 = 4"
      "(100::nat) div int_math_sqrt 100 = 10"
    using int_math_sqrt_at_squares by simp_all
  have le: "(1::nat) \<le> 1" "(1::nat) \<le> 4" "(1::nat) \<le> 9" "(1::nat) \<le> 16" "(1::nat) \<le> 100"
    by simp_all
  have lt: "(1::nat) < 2 ^ 52" "(4::nat) < 2 ^ 52" "(9::nat) < 2 ^ 52" "(16::nat) < 2 ^ 52"
      "(100::nat) < 2 ^ 52"
    by simp_all
  have e: "map (\<lambda>j. [0..<9] ! (j * 3 - 1)) [1..<9 div 3 + 1] = [2, 5, 8 :: nat]"
    by code_simp
  have m: "map (\<lambda>u. if u \<in> set [2, 5, 8 :: nat] then 1 else 0) [0..<9] =
      [0, 0, 1, 0, 0, 1, 0, 0, 1 :: int]"
    by code_simp
  have g9: "gen_s_checkpoints (unit_chain 9) (set [2, 5, 8]) = [[0, 0, 1, 0, 0, 1, 0, 0, 1]]"
    unfolding gen_s_checkpoints_def by (simp only: unit_chain_def DFGraph.simps m)
  have rec: "(let S = gen_s_checkpoints (unit_chain 9)
                      (set (map (\<lambda>j. [0..<9] ! (j * 3 - 1)) [1..<9 div 3 + 1]));
                R = solve_r_opt_id (unit_chain 9) S
            in \<lparr> solve_strategy = (if False then CHEN_SQRTN else CHEN_SQRTN_NOAP),
                 solver_budget = 0,
                 feasible = True,
                 schedule = Some (fst (schedule_count (unit_chain 9) R S)),
                 schedule_aux_data = Some (snd (schedule_count (unit_chain 9) R S)),
                 solve_time_s = Some 0,
                 ilp_aux_data = None \<rparr>) = sqrtn_chain9_result"
    unfolding e g9
    by (simp add: solve_r_opt_id_def schedule_count_def sqrtn_chain9_result_def)
  note n9 = T[OF le(3) lt(3), THEN conjunct2, THEN conjunct2, THEN conjunct1,
      unfolded int_math_sqrt_at_squares]
  note s9 = T[OF le(3) lt(3), THEN conjunct2, THEN conjunct2, THEN conjunct2,
      unfolded int_math_sqrt_at_squares]
  show ?thesis
    apply (intro conjI)
    apply (rule T[OF le(1) lt(1), THEN conjunct1, unfolded d])
    apply (rule T[OF le(2) lt(2), THEN conjunct1, unfolded d])
    apply (rule T[OF le(3) lt(3), THEN conjunct1, unfolded d])
    apply (rule T[OF le(4) lt(4), THEN conjunct1, unfolded d])
    apply (rule T[OF le(5) lt(5), THEN conjunct1, unfolded d])
    apply (rule T[OF le(5) lt(5), THEN conjunct2, THEN conjunct1, unfolded d])
    apply (rule trans[OF n9 e])
    apply (rule trans[OF s9 rec])
    done
qed

end
